theory Spec2Isabelle
  imports Main "HOL-Library.List_Lexorder"
begin

section \<open>Python strings\<close>

text \<open>
  A Python \<open>str\<close> is a sequence of Unicode code points, and \<open>len\<close>, slicing and
  \<open>startswith\<close> count code points. A string is therefore a list of code points
  (\<open>nat\<close>), not of bytes: the em-dash of the source (\<open>\u2014\<close>) is the single code
  point 8212. \<open>u\<close> turns an ASCII literal into such a string.
\<close>

type_synonym ustr = "nat list"

definition u :: "string \<Rightarrow> ustr" where
  "u s = map of_char s"

definition EM_DASH :: nat where
  "EM_DASH = 8212"

definition SQ :: ustr where
  "SQ = [39]"

definition DQ :: ustr where
  "DQ = [34]"

definition NL :: nat where
  "NL = 10"

text \<open>
  \<open>str.isspace\<close> of one code point: the characters \<open>str.strip()\<close> removes when it
  is called without an argument.
\<close>

definition is_space :: "nat \<Rightarrow> bool" where
  "is_space c \<longleftrightarrow>
     (9 \<le> c \<and> c \<le> 13) \<or> (28 \<le> c \<and> c \<le> 32) \<or> c = 133 \<or> c = 160 \<or> c = 5760 \<or>
     (8192 \<le> c \<and> c \<le> 8202) \<or> c = 8232 \<or> c = 8233 \<or> c = 8239 \<or> c = 8287 \<or> c = 12288"

definition strip :: "ustr \<Rightarrow> ustr" where
  "strip s = rev (dropWhile is_space (rev (dropWhile is_space s)))"

text \<open>
  \<open>str.lower()\<close> on ASCII text, as the validator is studied here: the letters \<open>A\<close> to
  \<open>Z\<close> are mapped as Python maps them and every other code point is kept. Python also
  maps the cased letters from code point 128 on, a few of them to ASCII letters (U+212A to
  \<open>k\<close>), so on text with such letters \<open>lower\<close> is not \<open>str.lower()\<close>. The title search
  of \<open>cmd_chapter_read\<close> does not use it: there \<open>str.lower\<close> is a parameter.
\<close>

definition lower_char :: "nat \<Rightarrow> nat" where
  "lower_char c = (if 65 \<le> c \<and> c \<le> 90 then c + 32 else c)"

definition lower :: "ustr \<Rightarrow> ustr" where
  "lower s = map lower_char s"

definition startswith :: "ustr \<Rightarrow> ustr \<Rightarrow> bool" where
  "startswith s p \<longleftrightarrow> take (length p) s = p"

text \<open>\<open>contains s p\<close> is Python's \<open>p in s\<close> on strings: \<open>p\<close> occurs in \<open>s\<close>.\<close>

fun contains :: "ustr \<Rightarrow> ustr \<Rightarrow> bool" where
  "contains [] p = (p = [])"
| "contains (c # s) p = (startswith (c # s) p \<or> contains s p)"

text \<open>\<open>sep.join(parts)\<close>.\<close>

fun join :: "ustr \<Rightarrow> ustr list \<Rightarrow> ustr" where
  "join sep [] = []"
| "join sep [x] = x"
| "join sep (x # y # ys) = x @ sep @ join sep (y # ys)"

text \<open>\<open>str(n)\<close> for a non-negative and for any integer: the decimal digits.\<close>

fun str_nat :: "nat \<Rightarrow> ustr" where
  "str_nat n = (if n < 10 then [48 + n] else str_nat (n div 10) @ [48 + n mod 10])"

declare str_nat.simps [simp del]

definition str_int :: "int \<Rightarrow> ustr" where
  "str_int i = (if i < 0 then 45 # str_nat (nat (- i)) else str_nat (nat i))"

section \<open>JSON values\<close>

text \<open>
  What \<open>json.loads\<close> returns. An object is a \<open>dict\<close>, kept as an association list
  whose first binding of a key is the dict's value for it. A float carries the text
  \<open>str()\<close> prints for it: the validator only asks for its type and prints it.
\<close>

datatype json =
    JNull
  | JBool bool
  | JInt int
  | JFloat ustr
  | JStr ustr
  | JList "json list"
  | JDict "(ustr \<times> json) list"

type_synonym pydict = "(ustr \<times> json) list"

text \<open>
  The exceptions of the modelled code. \<open>Unmodelled_repr\<close> is not one of them: it marks the
  one thing the model does not compute, the text \<open>str()\<close> prints for a list or a dict.
\<close>

datatype py_error = TypeError | KeyError | AttributeError | Unmodelled_repr

text \<open>\<open>type(v).__name__\<close>.\<close>

fun type_name :: "json \<Rightarrow> ustr" where
  "type_name JNull = u ''NoneType''"
| "type_name (JBool b) = u ''bool''"
| "type_name (JInt i) = u ''int''"
| "type_name (JFloat r) = u ''float''"
| "type_name (JStr s) = u ''str''"
| "type_name (JList xs) = u ''list''"
| "type_name (JDict d) = u ''dict''"

text \<open>\<open>d.get(k)\<close> (\<open>None\<close> when the key is absent) and \<open>k in d\<close>.\<close>

definition dget :: "pydict \<Rightarrow> ustr \<Rightarrow> json" where
  "dget d k = (case map_of d k of None \<Rightarrow> JNull | Some v \<Rightarrow> v)"

definition has_key :: "pydict \<Rightarrow> ustr \<Rightarrow> bool" where
  "has_key d k \<longleftrightarrow> map_of d k \<noteq> None"

section \<open>The validator: \<open>_validate_chapter_json\<close>\<close>

definition VALID_SEGMENT_TYPES :: "ustr list" where
  "VALID_SEGMENT_TYPES =
     [u ''text'', u ''dialogue'', u ''monolog'', u ''whisper'', u ''shout'',
      u ''emphasis'', u ''center'', u ''right'', u ''scene_break'', u ''heading'']"

definition NARRATIVE_TYPES :: "ustr list" where
  "NARRATIVE_TYPES = [u ''dialogue'', u ''monolog'', u ''whisper'', u ''shout'']"

definition RAW_TAGS :: "ustr list" where
  "RAW_TAGS = [u ''thought'', u ''whisper'', u ''shout'', u ''emphasis'', u ''center'', u ''right'']"

text \<open>The dict \<open>_TAG_TO_TYPE\<close>, read at a key of \<open>_RAW_TAGS\<close>.\<close>

definition TAG_TO_TYPE :: "ustr \<Rightarrow> ustr" where
  "TAG_TO_TYPE t = (if t = u ''thought'' then u ''monolog'' else t)"

text \<open>The f-string \<open>segments[{i}]\<close>.\<close>

definition seg_prefix :: "nat \<Rightarrow> ustr" where
  "seg_prefix i = u ''segments['' @ str_nat i @ u '']''"

definition err_not_object :: "nat \<Rightarrow> ustr" where
  "err_not_object i = seg_prefix i @ u '': each segment must be an object''"

definition err_missing_type :: "nat \<Rightarrow> ustr" where
  "err_missing_type i = seg_prefix i @ u '': missing required field '' @ SQ @ u ''type'' @ SQ"

text \<open>
  \<open>shown\<close> is \<open>str(stype)\<close>; the valid types are listed sorted, as
  \<open>sorted(VALID_SEGMENT_TYPES)\<close> gives them.
\<close>

definition err_unknown_type :: "nat \<Rightarrow> ustr \<Rightarrow> ustr" where
  "err_unknown_type i shown =
     seg_prefix i @ u '': unknown type '' @ SQ @ shown @ SQ @ u ''. Valid: ''
       @ join (u '', '') (sort VALID_SEGMENT_TYPES)"

definition err_break_text :: "nat \<Rightarrow> ustr" where
  "err_break_text i =
     seg_prefix i @ u '': '' @ SQ @ u ''scene_break'' @ SQ @ u '' must not have a ''
       @ SQ @ u ''text'' @ SQ @ u '' field''"

definition err_break_narrative :: "nat \<Rightarrow> ustr" where
  "err_break_narrative i =
     seg_prefix i @ u '': '' @ SQ @ u ''scene_break'' @ SQ @ u '' does not support ''
       @ SQ @ u ''narrative'' @ SQ @ u '' field''"

definition err_requires_text :: "nat \<Rightarrow> ustr \<Rightarrow> ustr" where
  "err_requires_text i stype =
     seg_prefix i @ u '': '' @ SQ @ stype @ SQ @ u '' requires a '' @ SQ @ u ''text'' @ SQ
       @ u '' field''"

definition err_text_empty :: "nat \<Rightarrow> ustr" where
  "err_text_empty i =
     seg_prefix i @ u '': '' @ SQ @ u ''text'' @ SQ @ u '' must be a non-empty string''"

definition err_no_narrative :: "nat \<Rightarrow> ustr \<Rightarrow> ustr" where
  "err_no_narrative i stype =
     seg_prefix i @ u '': '' @ SQ @ stype @ SQ @ u '' does not support '' @ SQ
       @ u ''narrative'' @ SQ @ u '' field. Only ''
       @ join (u '', '') (sort NARRATIVE_TYPES) @ u '' do.''"

definition err_narrative_empty :: "nat \<Rightarrow> ustr" where
  "err_narrative_empty i =
     seg_prefix i @ u '': '' @ SQ @ u ''narrative'' @ SQ @ u '' must be a non-empty string''"

definition err_raw_tag :: "nat \<Rightarrow> ustr \<Rightarrow> ustr" where
  "err_raw_tag i raw_tag =
     seg_prefix i @ u '': text contains raw '' @ SQ @ u ''['' @ raw_tag @ u '']'' @ SQ
       @ u '' tag. Use {'' @ DQ @ u ''type'' @ DQ @ u '': '' @ DQ @ TAG_TO_TYPE raw_tag @ DQ
       @ u ''} segment instead of putting tags in text.''"

definition err_dash :: "nat \<Rightarrow> ustr \<Rightarrow> ustr" where
  "err_dash i dash =
     seg_prefix i @ u '': text starts with dialogue dash '' @ SQ @ dash @ SQ
       @ u ''. Use {'' @ DQ @ u ''type'' @ DQ @ u '': '' @ DQ @ u ''dialogue'' @ DQ
       @ u ''} segment instead.''"

definition err_title_dup :: ustr where
  "err_title_dup =
     u ''segments[0]: heading text duplicates the chapter title. Remove this segment ''
       @ [EM_DASH] @ u '' the title field is displayed automatically.''"

text \<open>
  The test of the loop over \<open>_RAW_TAGS\<close>: the open or the close form of the tag occurs
  in \<open>text.lower()\<close>.
\<close>

definition has_raw_tag :: "ustr \<Rightarrow> ustr \<Rightarrow> bool" where
  "has_raw_tag text raw_tag \<longleftrightarrow>
     contains (lower text) (u ''['' @ raw_tag @ u '']'') \<or>
     contains (lower text) (u ''[/'' @ raw_tag @ u '']'')"

text \<open>The loop with its \<open>break\<close>: the first tag of \<open>_RAW_TAGS\<close> that occurs is reported.\<close>

definition raw_tag_errors :: "nat \<Rightarrow> ustr \<Rightarrow> ustr list" where
  "raw_tag_errors i text =
     (case find (has_raw_tag text) RAW_TAGS of
        None \<Rightarrow> []
      | Some raw_tag \<Rightarrow> [err_raw_tag i raw_tag])"

definition dash_errors :: "nat \<Rightarrow> ustr \<Rightarrow> ustr \<Rightarrow> ustr list" where
  "dash_errors i stype text =
     (if stype = u ''text'' \<and> (startswith text [EM_DASH, 32] \<or> startswith text (u ''- ''))
      then [err_dash i (if startswith text [EM_DASH] then [EM_DASH] else u ''-'')]
      else [])"

text \<open>The checks on \<open>text\<close>, on \<open>narrative\<close> and inside a string \<open>text\<close>, in the source's order.\<close>

definition text_errors :: "nat \<Rightarrow> ustr \<Rightarrow> json \<Rightarrow> ustr list" where
  "text_errors i stype text =
     (case text of
        JNull \<Rightarrow> [err_requires_text i stype]
      | JStr t \<Rightarrow> (if strip t = [] then [err_text_empty i] else [])
      | _ \<Rightarrow> [err_text_empty i])"

definition narrative_errors :: "nat \<Rightarrow> ustr \<Rightarrow> pydict \<Rightarrow> ustr list" where
  "narrative_errors i stype seg =
     (if has_key seg (u ''narrative'') then
        (if stype \<notin> set NARRATIVE_TYPES then [err_no_narrative i stype]
         else (case dget seg (u ''narrative'') of
                 JStr n \<Rightarrow> (if strip n = [] then [err_narrative_empty i] else [])
               | _ \<Rightarrow> [err_narrative_empty i]))
      else [])"

definition in_text_errors :: "nat \<Rightarrow> ustr \<Rightarrow> json \<Rightarrow> ustr list" where
  "in_text_errors i stype text =
     (case text of
        JStr t \<Rightarrow> (if t \<noteq> [] then raw_tag_errors i t @ dash_errors i stype t else [])
      | _ \<Rightarrow> [])"

text \<open>
  The body of the loop over the segments, for a segment whose \<open>type\<close> is the valid
  string \<open>stype\<close>.
\<close>

definition check_typed_segment :: "nat \<Rightarrow> ustr \<Rightarrow> pydict \<Rightarrow> ustr list" where
  "check_typed_segment i stype seg =
     (if stype = u ''scene_break'' then
        (if has_key seg (u ''text'') then [err_break_text i] else [])
        @ (if has_key seg (u ''narrative'') then [err_break_narrative i] else [])
      else
        text_errors i stype (dget seg (u ''text''))
        @ narrative_errors i stype seg
        @ in_text_errors i stype (dget seg (u ''text'')))"

text \<open>
  One turn of the loop: the messages it appends, or the exception it raises.
  \<open>stype not in VALID_SEGMENT_TYPES\<close> hashes \<open>stype\<close>: a list or a dict is
  unhashable and the membership test raises \<open>TypeError\<close>.
\<close>

definition validate_segment :: "nat \<Rightarrow> json \<Rightarrow> py_error + ustr list" where
  "validate_segment i seg =
     (case seg of
        JDict d \<Rightarrow>
          (case dget d (u ''type'') of
             JNull \<Rightarrow> Inr [err_missing_type i]
           | JList xs \<Rightarrow> Inl TypeError
           | JDict e \<Rightarrow> Inl TypeError
           | JBool b \<Rightarrow> Inr [err_unknown_type i (if b then u ''True'' else u ''False'')]
           | JInt n \<Rightarrow> Inr [err_unknown_type i (str_int n)]
           | JFloat r \<Rightarrow> Inr [err_unknown_type i r]
           | JStr stype \<Rightarrow>
               (if stype \<notin> set VALID_SEGMENT_TYPES then Inr [err_unknown_type i stype]
                else Inr (check_typed_segment i stype d)))
      | _ \<Rightarrow> Inr [err_not_object i])"

fun validate_segments :: "nat \<Rightarrow> json list \<Rightarrow> py_error + ustr list" where
  "validate_segments i [] = Inr []"
| "validate_segments i (seg # segs) =
     (case validate_segment i seg of
        Inl e \<Rightarrow> Inl e
      | Inr es \<Rightarrow>
          (case validate_segments (Suc i) segs of
             Inl e \<Rightarrow> Inl e
           | Inr es' \<Rightarrow> Inr (es @ es')))"

definition title_errors :: "json \<Rightarrow> ustr list" where
  "title_errors title =
     (case title of
        JNull \<Rightarrow> [u ''Missing required field: '' @ SQ @ u ''title'' @ SQ]
      | JStr t \<Rightarrow>
          (if strip t = [] then [SQ @ u ''title'' @ SQ @ u '' must be a non-empty string'']
           else [])
      | _ \<Rightarrow> [SQ @ u ''title'' @ SQ @ u '' must be a non-empty string''])"

text \<open>The check after the loop: the first segment is a heading that repeats the title.\<close>

definition title_dup_errors :: "json \<Rightarrow> json list \<Rightarrow> ustr list" where
  "title_dup_errors title segments =
     (case segments of
        JDict first # rest \<Rightarrow>
          (case (dget first (u ''type''), dget first (u ''text''), title) of
             (JStr ty, JStr ft, JStr t) \<Rightarrow>
               (if ty = u ''heading'' \<and> strip t \<noteq> [] \<and>
                   (lower (strip ft) = lower (strip t)
                    \<or> contains (lower (strip ft)) (lower (strip t)))
                then [err_title_dup] else [])
           | _ \<Rightarrow> [])
      | _ \<Rightarrow> [])"

definition validate_chapter_json :: "json \<Rightarrow> py_error + ustr list" where
  "validate_chapter_json data =
     (case data of
        JDict d \<Rightarrow>
          (let title = dget d (u ''title'');
               errors = title_errors title
           in case dget d (u ''segments'') of
                JNull \<Rightarrow> Inr (errors @ [u ''Missing required field: '' @ SQ @ u ''segments'' @ SQ])
              | JList segments \<Rightarrow>
                  (if segments = [] then
                     Inr (errors @ [SQ @ u ''segments'' @ SQ @ u '' must not be empty''])
                   else
                     (case validate_segments 0 segments of
                        Inl e \<Rightarrow> Inl e
                      | Inr es \<Rightarrow> Inr (errors @ es @ title_dup_errors title segments)))
              | _ \<Rightarrow> Inr (errors @ [SQ @ u ''segments'' @ SQ @ u '' must be an array'']))
      | _ \<Rightarrow>
          Inr [u ''Input must be a JSON object (dict), not '' @ type_name data])"

section \<open>The renderer: \<open>_segments_to_markup\<close>\<close>

text \<open>\<open>bool(v)\<close>, as \<open>if narrative:\<close> takes it.\<close>

fun truthy :: "json \<Rightarrow> bool" where
  "truthy JNull = False"
| "truthy (JBool b) = b"
| "truthy (JInt i) = (i \<noteq> 0)"
| "truthy (JFloat r) = (r \<noteq> u ''0.0'' \<and> r \<noteq> u ''-0.0'')"
| "truthy (JStr s) = (s \<noteq> [])"
| "truthy (JList xs) = (xs \<noteq> [])"
| "truthy (JDict d) = (d \<noteq> [])"

text \<open>What an f-string puts for \<open>{v}\<close>: \<open>str(v)\<close>.\<close>

fun py_str :: "json \<Rightarrow> py_error + ustr" where
  "py_str JNull = Inr (u ''None'')"
| "py_str (JBool b) = Inr (if b then u ''True'' else u ''False'')"
| "py_str (JInt i) = Inr (str_int i)"
| "py_str (JFloat r) = Inr r"
| "py_str (JStr s) = Inr s"
| "py_str (JList xs) = Inl Unmodelled_repr"
| "py_str (JDict d) = Inl Unmodelled_repr"

text \<open>\<open>d.get(k, "")\<close>.\<close>

definition dget_or_empty :: "pydict \<Rightarrow> ustr \<Rightarrow> json" where
  "dget_or_empty d k = (case map_of d k of None \<Rightarrow> JStr [] | Some v \<Rightarrow> v)"

text \<open>\<open>open + str(text) + close\<close>, then \<open>sep + str(narrative)\<close> when the narrative is true.\<close>

definition wrap_text :: "ustr \<Rightarrow> ustr \<Rightarrow> json \<Rightarrow> py_error + ustr" where
  "wrap_text opening closing text =
     (case py_str text of Inl e \<Rightarrow> Inl e | Inr t \<Rightarrow> Inr (opening @ t @ closing))"

definition with_narrative :: "ustr \<Rightarrow> json \<Rightarrow> py_error + ustr \<Rightarrow> py_error + ustr" where
  "with_narrative sep narrative line =
     (case line of
        Inl e \<Rightarrow> Inl e
      | Inr l \<Rightarrow>
          (if truthy narrative then
             (case py_str narrative of Inl e \<Rightarrow> Inl e | Inr n \<Rightarrow> Inr (l @ sep @ n))
           else Inr l))"

definition as_part :: "py_error + ustr \<Rightarrow> py_error + json list" where
  "as_part line = (case line of Inl e \<Rightarrow> Inl e | Inr l \<Rightarrow> Inr [JStr l])"

text \<open>
  One turn of the loop: the values appended to \<open>parts\<close> (none for a type that no branch
  names). A \<open>text\<close> segment appends its text as it is, string or not.
\<close>

definition segment_parts :: "json \<Rightarrow> py_error + json list" where
  "segment_parts seg =
     (case seg of
        JDict d \<Rightarrow>
          (case map_of d (u ''type'') of
             None \<Rightarrow> Inl KeyError
           | Some stype \<Rightarrow>
               (let text = dget_or_empty d (u ''text'');
                    narrative = dget_or_empty d (u ''narrative'')
                in if stype = JStr (u ''text'') then Inr [text]
                   else if stype = JStr (u ''dialogue'') then
                     as_part (with_narrative ([32, EM_DASH, 32]) narrative
                       (wrap_text [EM_DASH, 32] [] text))
                   else if stype = JStr (u ''monolog'') then
                     as_part (with_narrative (u '' '') narrative
                       (wrap_text (u ''[thought]'') (u ''[/thought]'') text))
                   else if stype = JStr (u ''whisper'') then
                     as_part (with_narrative (u '' '') narrative
                       (wrap_text (u ''[whisper]'') (u ''[/whisper]'') text))
                   else if stype = JStr (u ''shout'') then
                     as_part (with_narrative (u '' '') narrative
                       (wrap_text (u ''[shout]'') (u ''[/shout]'') text))
                   else if stype = JStr (u ''emphasis'') then
                     as_part (wrap_text (u ''[emphasis]'') (u ''[/emphasis]'') text)
                   else if stype = JStr (u ''center'') then
                     as_part (wrap_text (u ''[center]'') (u ''[/center]'') text)
                   else if stype = JStr (u ''right'') then
                     as_part (wrap_text (u ''[right]'') (u ''[/right]'') text)
                   else if stype = JStr (u ''scene_break'') then Inr [JStr (u ''---'')]
                   else if stype = JStr (u ''heading'') then
                     as_part (wrap_text (u ''### '') [] text)
                   else Inr []))
      | _ \<Rightarrow> Inl TypeError)"

fun all_parts :: "json list \<Rightarrow> py_error + json list" where
  "all_parts [] = Inr []"
| "all_parts (seg # segs) =
     (case segment_parts seg of
        Inl e \<Rightarrow> Inl e
      | Inr ps \<Rightarrow> (case all_parts segs of Inl e \<Rightarrow> Inl e | Inr qs \<Rightarrow> Inr (ps @ qs)))"

text \<open>\<open>"\n\n".join(parts)\<close>: a part that is not a string raises \<open>TypeError\<close>.\<close>

fun strings_of :: "json list \<Rightarrow> py_error + ustr list" where
  "strings_of [] = Inr []"
| "strings_of (JStr s # ps) =
     (case strings_of ps of Inl e \<Rightarrow> Inl e | Inr ss \<Rightarrow> Inr (s # ss))"
| "strings_of (p # ps) = Inl TypeError"

definition segments_to_markup :: "json list \<Rightarrow> py_error + ustr" where
  "segments_to_markup segments =
     (case all_parts segments of
        Inl e \<Rightarrow> Inl e
      | Inr parts \<Rightarrow>
          (case strings_of parts of
             Inl e \<Rightarrow> Inl e
           | Inr ss \<Rightarrow> Inr (join [NL, NL] ss)))"

section \<open>More string operations\<close>

text \<open>
  \<open>s.replace(a, new)\<close> for a pattern \<open>a\<close> of one character, which is what the source
  replaces (\<open>"\n"\<close> and \<open>"Z"\<close>).
\<close>

definition replace_char :: "nat \<Rightarrow> ustr \<Rightarrow> ustr \<Rightarrow> ustr" where
  "replace_char a new s = concat (map (\<lambda>c. if c = a then new else [c]) s)"

text \<open>
  \<open>partition_at sep s\<close> cuts \<open>s\<close> at the first occurrence of \<open>sep\<close>: the text before
  it and the text after it.
\<close>

fun partition_at :: "ustr \<Rightarrow> ustr \<Rightarrow> (ustr \<times> ustr) option" where
  "partition_at sep [] = (if sep = [] then Some ([], []) else None)"
| "partition_at sep (c # s) =
     (if startswith (c # s) sep then Some ([], drop (length sep) (c # s))
      else (case partition_at sep s of
              None \<Rightarrow> None
            | Some (a, b) \<Rightarrow> Some (c # a, b)))"

lemma partition_at_shorter:
  "partition_at sep s = Some (a, b) \<Longrightarrow> sep \<noteq> [] \<Longrightarrow> length b < length s"
proof (induction s arbitrary: a b)
  case Nil
  then show ?case by simp
next
  case (Cons c s)
  show ?case
  proof (cases "startswith (c # s) sep")
    case True
    with Cons.prems show ?thesis by (cases sep) auto
  next
    case False
    with Cons.prems obtain a' where "partition_at sep s = Some (a', b)"
      by (auto split: option.splits)
    from Cons.IH [OF this Cons.prems(2)] show ?thesis by simp
  qed
qed

text \<open>
  \<open>s.split(sep)\<close> for a separator that is not empty (Python raises \<open>ValueError\<close> for
  the empty one, which the source never passes), and \<open>s.split(sep, 1)\<close>.
\<close>

function split :: "ustr \<Rightarrow> ustr \<Rightarrow> ustr list" where
  "split sep s =
     (if sep = [] then []
      else (case partition_at sep s of
              None \<Rightarrow> [s]
            | Some (a, b) \<Rightarrow> a # split sep b))"
  by pat_completeness auto
termination
  by (relation "measure (\<lambda>(sep, s). length s)") (auto dest: partition_at_shorter)

declare split.simps [simp del]

definition split_once :: "ustr \<Rightarrow> ustr \<Rightarrow> ustr list" where
  "split_once sep s = (case partition_at sep s of None \<Rightarrow> [s] | Some (a, b) \<Rightarrow> [a, b])"

text \<open>\<open>xs[i]\<close> for \<open>i \<ge> 0\<close>, \<open>None\<close> where Python raises \<open>IndexError\<close>.\<close>

definition index :: "'a list \<Rightarrow> nat \<Rightarrow> 'a option" where
  "index xs i = (if i < length xs then Some (xs ! i) else None)"

text \<open>
  \<open>str.splitlines()\<close>: a line ends at \<open>\n\<close>, \<open>\r\<close>, \<open>\r\n\<close>, \<open>\v\<close>, \<open>\f\<close>,
  \<open>\x1c\<close>, \<open>\x1d\<close>, \<open>\x1e\<close>, \<open>\x85\<close>, \<open>\u2028\<close> or \<open>\u2029\<close>, and no empty line
  follows the last boundary.
\<close>

definition is_linebreak :: "nat \<Rightarrow> bool" where
  "is_linebreak c \<longleftrightarrow>
     (10 \<le> c \<and> c \<le> 13) \<or> (28 \<le> c \<and> c \<le> 30) \<or> c = 133 \<or> c = 8232 \<or> c = 8233"

fun splitlines_from :: "ustr \<Rightarrow> ustr \<Rightarrow> ustr list" where
  "splitlines_from cur [] = (if cur = [] then [] else [rev cur])"
| "splitlines_from cur [c] =
     (if is_linebreak c then [rev cur] else [rev (c # cur)])"
| "splitlines_from cur (c # d # s) =
     (if c = 13 \<and> d = 10 then rev cur # splitlines_from [] s
      else if is_linebreak c then rev cur # splitlines_from [] (d # s)
      else splitlines_from (c # cur) (d # s))"

definition splitlines :: "ustr \<Rightarrow> ustr list" where
  "splitlines s = splitlines_from [] s"

section \<open>The remote service and the cache\<close>

text \<open>
  The service, as \<open>_api("GET", path, ...)\<close> sees it: a request gives the parsed JSON
  reply, or it fails (\<open>None\<close>). A quiet call returns Python's \<open>None\<close> for a request
  that failed; a call that is not quiet ends the process. The replies are untyped JSON:
  the source reads them with \<open>.get\<close> and never checks a type.
\<close>

type_synonym remote = "ustr \<Rightarrow> json option"

definition quiet :: "json option \<Rightarrow> json" where
  "quiet reply = (case reply of None \<Rightarrow> JNull | Some v \<Rightarrow> v)"

definition book_path :: "ustr \<Rightarrow> ustr" where
  "book_path book_id = u ''/content?id='' @ book_id"

definition chapter_path :: "ustr \<Rightarrow> ustr" where
  "chapter_path chapter_id = u ''/chapters?id='' @ chapter_id @ u ''&forAgent=true''"

definition chapter_probe_path :: "ustr \<Rightarrow> ustr" where
  "chapter_probe_path chapter_id = u ''/chapters?id='' @ chapter_id"

definition chapters_path :: "ustr \<Rightarrow> ustr" where
  "chapters_path book_id = u ''/chapters?contentId='' @ book_id @ u ''&forAgent=true''"

text \<open>\<open>d.get(k, default)\<close>: the default only when the key is absent.\<close>

definition dget_default :: "pydict \<Rightarrow> ustr \<Rightarrow> json \<Rightarrow> json" where
  "dget_default d k dflt = (case map_of d k of None \<Rightarrow> dflt | Some v \<Rightarrow> v)"

text \<open>
  The chapter list taken from the reply to \<open>GET /chapters?contentId=...\<close>: the value of
  \<open>chapters\<close> when the reply is an object, the reply when it is a list, \<open>[]\<close> otherwise.
\<close>

definition chapters_of :: "json \<Rightarrow> json" where
  "chapters_of resp =
     (case resp of
        JDict d \<Rightarrow> dget_default d (u ''chapters'') (JList [])
      | JList xs \<Rightarrow> JList xs
      | _ \<Rightarrow> JList [])"

text \<open>
  \<open>for ch in v\<close> and \<open>enumerate(v)\<close>: the items of a list, the characters of a string,
  the keys of a dict; anything else is not iterable. \<open>len(v)\<close> likewise.
\<close>

definition dict_keys :: "pydict \<Rightarrow> ustr list" where
  "dict_keys d = rev (remdups (rev (map fst d)))"

definition iterate :: "json \<Rightarrow> py_error + json list" where
  "iterate v =
     (case v of
        JList xs \<Rightarrow> Inr xs
      | JStr s \<Rightarrow> Inr (map (\<lambda>c. JStr [c]) s)
      | JDict d \<Rightarrow> Inr (map JStr (dict_keys d))
      | _ \<Rightarrow> Inl TypeError)"

definition py_len :: "json \<Rightarrow> py_error + nat" where
  "py_len v =
     (case v of
        JList xs \<Rightarrow> Inr (length xs)
      | JStr s \<Rightarrow> Inr (length s)
      | JDict d \<Rightarrow> Inr (length (dict_keys d))
      | _ \<Rightarrow> Inl TypeError)"

text \<open>Going on after a step that may raise.\<close>

definition and_then :: "py_error + 'a \<Rightarrow> ('a \<Rightarrow> py_error + 'b) \<Rightarrow> py_error + 'b" where
  "and_then r f = (case r of Inl e \<Rightarrow> Inl e | Inr x \<Rightarrow> f x)"

text \<open>
  The cache directory: the files \<open>*.md\<close> in the order \<open>glob\<close> yields them, each with
  its stem (the book identifier) and the text written to it; a directory that does not
  exist is the empty list. \<open>unlink\<close> removes a file and \<open>write_text\<close> replaces or adds
  one. \<open>Path.read_text()\<close> opens the file with universal newlines: it returns \<open>\r\n\<close>
  and \<open>\r\<close> as \<open>\n\<close>.
\<close>

type_synonym cache = "(ustr \<times> ustr) list"

definition unlink :: "ustr \<Rightarrow> cache \<Rightarrow> cache" where
  "unlink stem c = filter (\<lambda>(k, v). k \<noteq> stem) c"

definition write_text :: "ustr \<Rightarrow> ustr \<Rightarrow> cache \<Rightarrow> cache" where
  "write_text stem text c =
     (if map_of c stem = None then c @ [(stem, text)]
      else map (\<lambda>(k, v). if k = stem then (k, text) else (k, v)) c)"

fun read_text :: "ustr \<Rightarrow> ustr" where
  "read_text [] = []"
| "read_text [c] = [if c = 13 then 10 else c]"
| "read_text (c # d # s) =
     (if c = 13 \<and> d = 10 then 10 # read_text s
      else if c = 13 then 10 # read_text (d # s)
      else c # read_text (d # s))"

section \<open>Writing a cache entry: \<open>cmd_read\<close> and \<open>_rebuild_book_cache\<close>\<close>

text \<open>
  The preview of a chapter whose content is a string. Both writers compute it with the
  same three lines: \<open>preview = ch_content[:200].replace("\n", " ").strip()\<close>, then
  \<open>"..."\<close> is appended when \<open>len(ch_content) > 200\<close>.
\<close>

definition chapter_preview :: "ustr \<Rightarrow> ustr" where
  "chapter_preview content =
     (let preview = strip (replace_char NL (u '' '') (take 200 content))
      in if length content > 200 then preview @ u ''...'' else preview)"

text \<open>
  The same lines on whatever \<open>ch.get("content", "")\<close> gives: \<open>None\<close>, a number and a
  bool cannot be sliced (\<open>TypeError\<close>); the slice of a list is a list, which has no
  \<open>replace\<close> (\<open>AttributeError\<close>); a dict cannot be sliced (\<open>TypeError\<close>; from Python
  3.12 on, where a slice can be hashed, it is a \<open>KeyError\<close>).
\<close>

definition content_preview :: "json \<Rightarrow> py_error + ustr" where
  "content_preview v =
     (case v of
        JStr s \<Rightarrow> Inr (chapter_preview s)
      | JList xs \<Rightarrow> Inl AttributeError
      | _ \<Rightarrow> Inl TypeError)"

text \<open>
  The line of chapter \<open>i\<close> (counted from 0) in the chapter list of the entry. \<open>ch.get\<close>
  raises \<open>AttributeError\<close> on anything but a dict.
\<close>

definition chapter_line :: "nat \<Rightarrow> json \<Rightarrow> py_error + ustr" where
  "chapter_line i ch =
     (case ch of
        JDict d \<Rightarrow>
          and_then (content_preview (dget_default d (u ''content'') (JStr []))) (\<lambda>preview.
          and_then (py_str (dget_default d (u ''title'') (JStr (u ''Chapter '' @ str_nat (i + 1)))))
            (\<lambda>ch_title.
          and_then (py_str (dget_default d (u ''_id'') (JStr []))) (\<lambda>ch_id.
            Inr (u ''- **'' @ ch_title @ u ''** (id: '' @ ch_id @ u ''): '' @ preview))))
      | _ \<Rightarrow> Inl AttributeError)"

fun chapter_lines :: "nat \<Rightarrow> json list \<Rightarrow> py_error + ustr list" where
  "chapter_lines i [] = Inr []"
| "chapter_lines i (ch # chs) =
     and_then (chapter_line i ch) (\<lambda>l.
     and_then (chapter_lines (Suc i) chs) (\<lambda>ls. Inr (l # ls)))"

text \<open>
  The first lines of both writers: the title, the author \<open>creator.name\<close>, the publisher
  \<open>publisher.name\<close>, the category and the description of the book.
  \<open>book.get("creator", {}).get("name", "Unknown")\<close> raises \<open>AttributeError\<close> when the
  book is not a dict, and when \<open>creator\<close> is there and is not a dict, as \<open>null\<close>.
\<close>

definition name_of :: "pydict \<Rightarrow> ustr \<Rightarrow> py_error + json" where
  "name_of bk k =
     (case dget_default bk k (JDict []) of
        JDict d \<Rightarrow> Inr (dget_default d (u ''name'') (JStr (u ''Unknown'')))
      | _ \<Rightarrow> Inl AttributeError)"

definition book_fields :: "json \<Rightarrow> py_error + json \<times> json \<times> json \<times> json \<times> json" where
  "book_fields book =
     (case book of
        JDict bk \<Rightarrow>
          and_then (name_of bk (u ''creator'')) (\<lambda>author.
          and_then (name_of bk (u ''publisher'')) (\<lambda>publisher.
            Inr (dget_default bk (u ''title'') (JStr (u ''Untitled'')), author, publisher,
                 dget_default bk (u ''category'') (JStr []),
                 dget_default bk (u ''description'') (JStr []))))
      | _ \<Rightarrow> Inl AttributeError)"

text \<open>
  The text both writers build from those fields and the chapter list, in the order the
  source evaluates it; \<open>stamp\<close> is the current time as \<open>strftime\<close> prints it. The
  description goes into the list of lines as it is, and \<open>"\n".join(lines)\<close> raises
  \<open>TypeError\<close> at the end when it is not a string.
\<close>

definition summary_of ::
  "ustr \<Rightarrow> ustr \<Rightarrow> json \<times> json \<times> json \<times> json \<times> json \<Rightarrow> json \<Rightarrow> py_error + ustr" where
  "summary_of stamp book_id fields chapters =
     (case fields of
        (title, author, publisher, category, desc) \<Rightarrow>
          and_then (py_str title) (\<lambda>title_text.
          and_then (py_str author) (\<lambda>author_text.
          and_then (py_str publisher) (\<lambda>publisher_text.
          and_then (if truthy category
                    then and_then (py_str category) (\<lambda>c. Inr [u ''**Category**: '' @ c])
                    else Inr []) (\<lambda>category_lines.
          and_then (py_len chapters) (\<lambda>n.
          and_then (iterate chapters) (\<lambda>items.
          and_then (chapter_lines 0 items) (\<lambda>chapter_list.
          and_then (if truthy desc
                    then (case desc of
                            JStr d \<Rightarrow> Inr [u ''## Description'', d, []]
                          | _ \<Rightarrow> Inl TypeError)
                    else Inr []) (\<lambda>desc_lines.
            Inr (join [NL]
                  ([u ''# Book Summary: '' @ title_text,
                    u ''**Book ID**: '' @ book_id,
                    u ''**Author**: '' @ author_text,
                    u ''**Publisher**: '' @ publisher_text]
                   @ category_lines
                   @ [u ''**Last Read**: '' @ stamp,
                      u ''**Chapters**: '' @ str_nat n,
                      []]
                   @ desc_lines
                   @ [u ''## Chapters'']
                   @ chapter_list)))))))))))"

text \<open>\<open>_rebuild_book_cache\<close>: the cache with the entry written, unless building it raises.\<close>

definition rebuild_book_cache ::
  "ustr \<Rightarrow> ustr \<Rightarrow> json \<Rightarrow> json \<Rightarrow> cache \<Rightarrow> py_error + cache" where
  "rebuild_book_cache stamp book_id book chapters c =
     and_then (book_fields book) (\<lambda>fields.
     and_then (summary_of stamp book_id fields chapters) (\<lambda>summary.
       Inr (write_text book_id summary c)))"

section \<open>Reading a book: \<open>cmd_read\<close> and the freshness of its cache entry\<close>

text \<open>
  Time. An aware \<open>datetime\<close> is an instant, counted in microseconds from the epoch; a
  naive one has no offset. \<open>datetime.fromisoformat\<close> is the library's parser and is a
  parameter of the model: it raises \<open>ValueError\<close> (\<open>ParseError\<close>) or returns a naive
  or an aware \<open>datetime\<close>.
\<close>

datatype parsed = ParseError | Naive int | Aware int

definition DAY_US :: int where
  "DAY_US = 86400 * 1000000"

text \<open>\<open>timedelta.days\<close> of the difference of two instants: the whole days, rounded down.\<close>

definition age_days :: "int \<Rightarrow> int \<Rightarrow> int" where
  "age_days now read_dt = (now - read_dt) div DAY_US"

definition LAST_READ :: ustr where
  "LAST_READ = u ''**Last Read**:''"

text \<open>
  The loop over the lines of a cached entry. \<open>Inr (Some d)\<close>: a line gave an age of
  \<open>d < 7\<close> days, the cached text is printed and the command returns. \<open>Inr None\<close>: the
  loop ends and the command goes on to fetch the book. A \<open>ValueError\<close> or an
  \<open>IndexError\<close> is caught and the loop goes on; subtracting a naive \<open>datetime\<close> from
  the aware \<open>now\<close> raises \<open>TypeError\<close>, which is not caught. The loop does not stop at
  a line that is 7 days old or more: it goes on to the next line.
\<close>

fun fresh_scan :: "(ustr \<Rightarrow> parsed) \<Rightarrow> int \<Rightarrow> ustr list \<Rightarrow> py_error + int option" where
  "fresh_scan fromisoformat now [] = Inr None"
| "fresh_scan fromisoformat now (line # rest) =
     (if startswith line LAST_READ then
        (case index (split_once (u '':'') line) 1 of
           None \<Rightarrow> fresh_scan fromisoformat now rest
         | Some field \<Rightarrow>
             (case fromisoformat (replace_char 90 (u ''+00:00'') (strip field)) of
                ParseError \<Rightarrow> fresh_scan fromisoformat now rest
              | Naive t \<Rightarrow> Inl TypeError
              | Aware read_dt \<Rightarrow>
                  (if age_days now read_dt < 7 then Inr (Some (age_days now read_dt))
                   else fresh_scan fromisoformat now rest)))
      else fresh_scan fromisoformat now rest)"

definition is_fresh :: "(ustr \<Rightarrow> parsed) \<Rightarrow> int \<Rightarrow> ustr \<Rightarrow> py_error + bool" where
  "is_fresh fromisoformat now content =
     (case fresh_scan fromisoformat now (splitlines content) of
        Inl e \<Rightarrow> Inl e
      | Inr None \<Rightarrow> Inr False
      | Inr (Some d) \<Rightarrow> Inr True)"

text \<open>
  How \<open>cmd_read\<close> ends: with the cached text and its age, with one of its two error
  messages, inside \<open>_api\<close> (the chapter list is not fetched quietly), with the summary
  it wrote, or with an exception.
\<close>

datatype read_outcome =
    Read_cached ustr int
  | Read_is_chapter
  | Read_not_found
  | Read_api_exit
  | Read_summary ustr
  | Read_raised py_error

text \<open>
  The part of \<open>cmd_read\<close> after the cache: the book, its fields, the chapter list, the
  summary, which is written and printed.
\<close>

definition fetch_and_write :: "ustr \<Rightarrow> remote \<Rightarrow> cache \<Rightarrow> ustr \<Rightarrow> read_outcome \<times> cache" where
  "fetch_and_write stamp rem c book_id =
     (let book = quiet (rem (book_path book_id))
      in if \<not> truthy book then
           (if truthy (quiet (rem (chapter_probe_path book_id))) then (Read_is_chapter, c)
            else (Read_not_found, c))
         else
           (case book_fields book of
              Inl e \<Rightarrow> (Read_raised e, c)
            | Inr fields \<Rightarrow>
                (case rem (chapters_path book_id) of
                   None \<Rightarrow> (Read_api_exit, c)
                 | Some resp \<Rightarrow>
                     (case summary_of stamp book_id fields (chapters_of resp) of
                        Inl e \<Rightarrow> (Read_raised e, c)
                      | Inr summary \<Rightarrow> (Read_summary summary, write_text book_id summary c)))))"

text \<open>
  \<open>now\<close> is the instant \<open>datetime.now(timezone.utc)\<close> and \<open>stamp\<close> the text
  \<open>strftime\<close> prints for it.
\<close>

definition cmd_read ::
  "(ustr \<Rightarrow> parsed) \<Rightarrow> int \<Rightarrow> ustr \<Rightarrow> remote \<Rightarrow> cache \<Rightarrow> ustr \<Rightarrow> bool
     \<Rightarrow> read_outcome \<times> cache" where
  "cmd_read fromisoformat now stamp rem c book_id refresh =
     (case map_of c book_id of
        None \<Rightarrow> fetch_and_write stamp rem c book_id
      | Some text \<Rightarrow>
          (if refresh then fetch_and_write stamp rem c book_id
           else
             (case fresh_scan fromisoformat now (splitlines (read_text text)) of
                Inl e \<Rightarrow> (Read_raised e, c)
              | Inr (Some d) \<Rightarrow> (Read_cached (read_text text) d, c)
              | Inr None \<Rightarrow> fetch_and_write stamp rem c book_id)))"

section \<open>Reading a chapter: \<open>cmd_chapter_read\<close> and the stale identifier\<close>

text \<open>
  The inner loop over the lines of the matching cache file: each line that contains the
  identifier and starts with \<open>- **\<close> sets the title, so the last such line decides.
\<close>

fun hint_scan :: "ustr \<Rightarrow> ustr option \<Rightarrow> ustr list \<Rightarrow> ustr option" where
  "hint_scan chapter_id info [] = info"
| "hint_scan chapter_id info (line # rest) =
     hint_scan chapter_id
       (if contains line chapter_id \<and> startswith line (u ''- **'') then
          (case index (split (u ''**'') line) 1 of
             Some title_part \<Rightarrow> Some title_part
           | None \<Rightarrow> info)
        else info)
       rest"

definition title_hint :: "ustr \<Rightarrow> ustr \<Rightarrow> ustr option" where
  "title_hint chapter_id content = hint_scan chapter_id None (split [NL] content)"

text \<open>
  The outer loop with its \<open>break\<close>: the first cache file whose text, as it is read,
  contains the identifier.
\<close>

definition find_stale_book :: "ustr \<Rightarrow> cache \<Rightarrow> (ustr \<times> ustr) option" where
  "find_stale_book chapter_id c =
     find (\<lambda>(stem, content). contains content chapter_id)
       (map (\<lambda>(stem, text). (stem, read_text text)) c)"

text \<open>
  \<open>title.lower().strip()\<close>. \<open>str.lower\<close> is the library's lower-casing of Unicode text
  and is a parameter of the model, \<open>str_lower\<close>.
\<close>

definition title_key :: "(ustr \<Rightarrow> ustr) \<Rightarrow> ustr \<Rightarrow> ustr" where
  "title_key str_lower t = strip (str_lower t)"

text \<open>
  \<open>ch.get("title", "")\<close> as the search needs it: \<open>.get\<close> asks for a dict and \<open>.lower()\<close>
  for a string, and each raises \<open>AttributeError\<close> otherwise.
\<close>

definition chapter_title :: "json \<Rightarrow> py_error + ustr" where
  "chapter_title ch =
     (case ch of
        JDict d \<Rightarrow>
          (case dget_default d (u ''title'') (JStr []) of
             JStr t \<Rightarrow> Inr t
           | _ \<Rightarrow> Inl AttributeError)
      | _ \<Rightarrow> Inl AttributeError)"

text \<open>The search for the chapter of that title: the first match ends it.\<close>

fun match_loop :: "(ustr \<Rightarrow> ustr) \<Rightarrow> ustr \<Rightarrow> json list \<Rightarrow> py_error + json option" where
  "match_loop str_lower target_title [] = Inr None"
| "match_loop str_lower target_title (ch # chs) =
     (case chapter_title ch of
        Inl e \<Rightarrow> Inl e
      | Inr t \<Rightarrow>
          (if title_key str_lower t = target_title then Inr (Some ch)
           else match_loop str_lower target_title chs))"

definition match_chapter ::
  "(ustr \<Rightarrow> ustr) \<Rightarrow> ustr option \<Rightarrow> json \<Rightarrow> py_error + json option" where
  "match_chapter str_lower info chapters =
     (case info of
        None \<Rightarrow> Inr None
      | Some title \<Rightarrow>
          (if title = [] then Inr None
           else and_then (iterate chapters) (match_loop str_lower (title_key str_lower title))))"

text \<open>
  The lines \<open>{i+1}. {title} (id: {_id})\<close> of the manual fallback, printed one by one
  until one raises.
\<close>

definition listing_line :: "nat \<Rightarrow> json \<Rightarrow> py_error + ustr" where
  "listing_line i ch =
     (case ch of
        JDict d \<Rightarrow>
          and_then (py_str (dget_default d (u ''title'') (JStr (u ''Untitled'')))) (\<lambda>title.
          and_then (py_str (dget_default d (u ''_id'') (JStr (u ''?'')))) (\<lambda>ch_id.
            Inr (u ''    '' @ str_nat (i + 1) @ u ''. '' @ title @ u '' (id: '' @ ch_id @ u '')'')))
      | _ \<Rightarrow> Inl AttributeError)"

fun print_listing :: "nat \<Rightarrow> json list \<Rightarrow> ustr list \<times> py_error option" where
  "print_listing i [] = ([], None)"
| "print_listing i (ch # chs) =
     (case listing_line i ch of
        Inl e \<Rightarrow> ([], Some e)
      | Inr l \<Rightarrow> (case print_listing (Suc i) chs of (ls, e) \<Rightarrow> (l # ls, e)))"

text \<open>
  How the command ends: \<open>Retrieved\<close> goes on to print the chapter under the identifier
  it carries; \<open>Unrecoverable\<close>, \<open>Book_deleted\<close>, \<open>No_chapters\<close> and \<open>Ambiguous\<close> are
  the four \<open>sys.exit(1)\<close> of the source; \<open>Raised\<close> is an exception that nothing catches.
\<close>

datatype chapter_outcome =
    Retrieved json json
  | Unrecoverable
  | Book_deleted ustr
  | No_chapters ustr
  | Ambiguous ustr
  | Raised py_error

definition NOT_FOUND_LINES :: "ustr \<Rightarrow> ustr list" where
  "NOT_FOUND_LINES chapter_id =
     [u ''ERROR: Chapter not found (id: '' @ chapter_id @ u '')'',
      [],
      u ''  This chapter ID may be from stale cache data.'',
      u ''  action: If you have a cached book, run '' @ SQ @ u ''read BOOK_ID --refresh'' @ SQ
        @ u '' to update it.'',
      u ''  hint: To clear book cache: rm -rf moltpad/memory/books/*'']"

definition FALLBACK_HEAD :: ustr where
  "FALLBACK_HEAD = u ''  Could not auto-match chapter. Here are current chapters:''"

definition FALLBACK_ACTION :: ustr where
  "FALLBACK_ACTION =
     u ''  action: Use '' @ SQ @ u ''chapter-read NEW_CHAPTER_ID'' @ SQ
       @ u '' with one of the IDs above.''"

text \<open>
  The manual fallback: the chapters are listed, the cache entry is rebuilt, the command
  exits. Each result is the outcome, the cache afterwards and the lines printed so far.
\<close>

definition manual_fallback ::
  "ustr \<Rightarrow> cache \<Rightarrow> ustr \<Rightarrow> json \<Rightarrow> json \<Rightarrow> ustr list \<Rightarrow> chapter_outcome \<times> cache \<times> ustr list" where
  "manual_fallback stamp c1 stale_book book chapters out =
     (case iterate chapters of
        Inl e \<Rightarrow> (Raised e, c1, out @ [FALLBACK_HEAD])
      | Inr items \<Rightarrow>
          (case print_listing 0 items of
             (shown, Some e) \<Rightarrow> (Raised e, c1, out @ [FALLBACK_HEAD] @ shown)
           | (shown, None) \<Rightarrow>
               (case rebuild_book_cache stamp stale_book book chapters c1 of
                  Inl e \<Rightarrow>
                    (Raised e, c1, out @ [FALLBACK_HEAD] @ shown @ [[], FALLBACK_ACTION])
                | Inr c2 \<Rightarrow>
                    (Ambiguous stale_book, c2,
                     out @ [FALLBACK_HEAD] @ shown @ [[], FALLBACK_ACTION]))))"

text \<open>
  The chapter that was matched is used: its title and identifier are printed
  (\<open>matched_chapter.get('title')\<close> is \<open>None\<close> when there is none), the identifier
  becomes the chapter's \<open>_id\<close> if it has one, and the cache entry is rebuilt.
\<close>

definition use_match ::
  "ustr \<Rightarrow> cache \<Rightarrow> ustr \<Rightarrow> ustr \<Rightarrow> json \<Rightarrow> json \<Rightarrow> json \<Rightarrow> ustr list
     \<Rightarrow> chapter_outcome \<times> cache \<times> ustr list" where
  "use_match stamp c1 chapter_id stale_book book chapters matched out =
     (case matched of
        JDict md \<Rightarrow>
          (case py_str (dget md (u ''title'')) of
             Inl e \<Rightarrow> (Raised e, c1, out)
           | Inr title \<Rightarrow>
               (case py_str (dget md (u ''_id'')) of
                  Inl e \<Rightarrow> (Raised e, c1, out @ [u ''  Found matching chapter: '' @ title])
                | Inr new_id \<Rightarrow>
                    (case rebuild_book_cache stamp stale_book book chapters c1 of
                       Inl e \<Rightarrow>
                         (Raised e, c1,
                          out @ [u ''  Found matching chapter: '' @ title,
                                 u ''  New chapter ID: '' @ new_id, []])
                     | Inr c2 \<Rightarrow>
                         (Retrieved (dget_default md (u ''_id'') (JStr chapter_id)) matched, c2,
                          out @ [u ''  Found matching chapter: '' @ title,
                                 u ''  New chapter ID: '' @ new_id, []]))))
      | _ \<Rightarrow> (Raised AttributeError, c1, out))"

text \<open>The refreshed chapter list of a book.\<close>

definition fresh_chapters :: "remote \<Rightarrow> ustr \<Rightarrow> json" where
  "fresh_chapters rem stale_book = chapters_of (quiet (rem (chapters_path stale_book)))"

text \<open>
  The branch taken once a cache file \<open>stale_book\<close> with the identifier is known: the
  old file is deleted, the book and its chapters are fetched, the chapter is searched by
  title.
\<close>

definition refresh_and_match ::
  "(ustr \<Rightarrow> ustr) \<Rightarrow> ustr \<Rightarrow> remote \<Rightarrow> cache \<Rightarrow> ustr \<Rightarrow> ustr \<Rightarrow> ustr option
     \<Rightarrow> chapter_outcome \<times> cache \<times> ustr list" where
  "refresh_and_match str_lower stamp rem c chapter_id stale_book info =
     (let c1 = unlink stale_book c;
          out = [u ''  Found stale ID in cached book: '' @ stale_book,
                 u ''  Auto-refreshing book cache...''];
          book = quiet (rem (book_path stale_book));
          chapters = fresh_chapters rem stale_book
      in if \<not> truthy book then
           (Book_deleted stale_book, c1,
            out @ [u ''ERROR: Book '' @ stale_book @ u '' no longer exists.'',
                   u ''  The book may have been deleted.''])
         else if \<not> truthy chapters then
           (No_chapters stale_book, c1,
            out @ [u ''ERROR: Book '' @ stale_book @ u '' has no chapters.''])
         else
           (case match_chapter str_lower info chapters of
              Inl e \<Rightarrow> (Raised e, c1, out)
            | Inr None \<Rightarrow> manual_fallback stamp c1 stale_book book chapters out
            | Inr (Some matched) \<Rightarrow>
                (if truthy matched
                 then use_match stamp c1 chapter_id stale_book book chapters matched out
                 else manual_fallback stamp c1 stale_book book chapters out)))"

definition cmd_chapter_read ::
  "(ustr \<Rightarrow> ustr) \<Rightarrow> ustr \<Rightarrow> remote \<Rightarrow> cache \<Rightarrow> ustr
     \<Rightarrow> chapter_outcome \<times> cache \<times> ustr list" where
  "cmd_chapter_read str_lower stamp rem c chapter_id =
     (let chapter = quiet (rem (chapter_path chapter_id))
      in if truthy chapter then (Retrieved (JStr chapter_id) chapter, c, [])
         else
           (let out = [u ''  Chapter ID not found, checking for stale cache...'']
            in case find_stale_book chapter_id c of
                 None \<Rightarrow> (Unrecoverable, c, out @ NOT_FOUND_LINES chapter_id)
               | Some (stale_book, content) \<Rightarrow>
                   (if stale_book = [] then (Unrecoverable, c, out @ NOT_FOUND_LINES chapter_id)
                    else
                      (case refresh_and_match str_lower stamp rem c chapter_id stale_book
                              (title_hint chapter_id content) of
                         (outcome, c', printed) \<Rightarrow> (outcome, c', out @ printed)))))"

section \<open>Adding a chapter: the \<open>orderIndex\<close> of \<open>cmd_chapter_add\<close>\<close>

text \<open>
  The chapter objects of the list \<open>cmd_chapter_add\<close> fetches, by the fields the program
  reads, each of which may be absent (the source reads them with \<open>.get\<close> and a
  default); \<open>orderIndex\<close> is any JSON value, since the source tests its type.
\<close>

record chapter_summary =
  ch_title :: "ustr option"
  ch_id :: "ustr option"
  ch_alt_id :: "ustr option"
  ch_content :: "ustr option"
  ch_contentId :: "ustr option"
  ch_orderIndex :: "json option"

text \<open>
  \<open>_order_value\<close>: the \<open>orderIndex\<close> when \<open>isinstance(v, int)\<close> holds, which it does
  for an \<open>int\<close> and for a \<open>bool\<close> (\<open>True\<close> counts 1), and \<open>-1\<close> otherwise.
\<close>

definition order_value :: "chapter_summary \<Rightarrow> int" where
  "order_value ch =
     (case ch_orderIndex ch of
        Some (JInt n) \<Rightarrow> n
      | Some (JBool b) \<Rightarrow> (if b then 1 else 0)
      | _ \<Rightarrow> - 1)"

text \<open>\<open>max(ch_list, key=_order_value)\<close>: the first chapter of the largest value.\<close>

fun max_by :: "('a \<Rightarrow> int) \<Rightarrow> 'a \<Rightarrow> 'a list \<Rightarrow> 'a" where
  "max_by key best [] = best"
| "max_by key best (x # xs) = max_by key (if key x > key best then x else best) xs"

text \<open>Step 3 of \<open>cmd_chapter_add\<close>, from the chapter list the service answered.\<close>

definition order_index :: "chapter_summary list \<Rightarrow> int" where
  "order_index ch_list =
     (case ch_list of
        [] \<Rightarrow> 0
      | ch # chs \<Rightarrow>
          max (order_value (max_by order_value ch chs)) (int (length ch_list) - 1) + 1)"

section \<open>Classifying the violations, and the documents of the examples\<close>



definition doc_dialogue :: json where
  "doc_dialogue =
     JDict [(u ''title'', JStr (u ''Ch1'')),
            (u ''segments'',
             JList [JDict [(u ''type'', JStr (u ''dialogue'')),
                           (u ''text'', JStr (u ''Hello'')),
                           (u ''narrative'', JStr (u ''she said''))]])]"



definition doc_unhashable_type :: json where
  "doc_unhashable_type =
     JDict [(u ''title'', JStr (u ''Ch1'')),
            (u ''segments'', JList [JDict [(u ''type'', JList [])]])]"




text \<open>A string with no white space at either end.\<close>

definition trimmed :: "ustr \<Rightarrow> bool" where
  "trimmed s \<longleftrightarrow> s = [] \<or> (\<not> is_space (hd s) \<and> \<not> is_space (last s))"

text \<open>A chapter object with nothing but, possibly, an \<open>orderIndex\<close>.\<close>

definition chapter_at :: "json option \<Rightarrow> chapter_summary" where
  "chapter_at v =
     \<lparr>ch_title = None, ch_id = None, ch_alt_id = None, ch_content = None,
      ch_contentId = None, ch_orderIndex = v\<rparr>"

text \<open>
  The lines of a cache entry that carry a time of reading, and the text \<open>fromisoformat\<close>
  is given for such a line.
\<close>

definition is_last_read_line :: "ustr \<Rightarrow> bool" where
  "is_last_read_line line \<longleftrightarrow> startswith line LAST_READ"

definition timestamp_text :: "ustr \<Rightarrow> ustr" where
  "timestamp_text line = replace_char 90 (u ''+00:00'') (strip (drop (length LAST_READ) line))"

text \<open>
  A service that knows one book, \<open>B\<close>, with the chapter list \<open>chapters\<close>, and no chapter
  by the identifier asked for.
\<close>

definition remote_example :: "json \<Rightarrow> json \<Rightarrow> remote" where
  "remote_example book chapters =
     (\<lambda>path. if path = book_path (u ''B'') then Some book
             else if path = chapters_path (u ''B'') then Some chapters
             else None)"

text \<open>
  A book whose description is the line \<open>**Last Read**: 2024-01-28T00:00:00Z\<close>, the entry
  \<open>cmd_read\<close> writes for it on 2024-01-01, and \<open>fromisoformat\<close> on the two timestamps
  of that entry, with 2024-01-01 as the instant 0.
\<close>

definition book_stamped :: json where
  "book_stamped =
     JDict [(u ''title'', JStr (u ''Tales'')),
            (u ''description'', JStr (u ''**Last Read**: 2024-01-28T00:00:00Z''))]"

definition entry_stamped :: ustr where
  "entry_stamped =
     u ''# Book Summary: Tales'' @ [NL] @
     u ''**Book ID**: B'' @ [NL] @
     u ''**Author**: Unknown'' @ [NL] @
     u ''**Publisher**: Unknown'' @ [NL] @
     u ''**Last Read**: 2024-01-01T00:00:00Z'' @ [NL] @
     u ''**Chapters**: 0'' @ [NL] @
     [NL] @
     u ''## Description'' @ [NL] @
     u ''**Last Read**: 2024-01-28T00:00:00Z'' @ [NL] @
     [NL] @
     u ''## Chapters''"

definition iso_january :: "ustr \<Rightarrow> parsed" where
  "iso_january s =
     (if s = u ''2024-01-01T00:00:00+00:00'' then Aware 0
      else if s = u ''2024-01-28T00:00:00+00:00'' then Aware (27 * DAY_US)
      else ParseError)"

text \<open>
  A cache with one entry, which lists the chapter \<open>Intro\<close> under the identifier \<open>X\<close>;
  chapter objects; a book with an author, a book whose \<open>creator\<close> is \<open>null\<close>; and the
  entry that is rebuilt for the first book with the chapters \<open>Prologue\<close> and \<open>INTRO\<close>.
\<close>

definition entry_intro :: ustr where
  "entry_intro = u ''## Chapters'' @ [NL] @ u ''- **Intro** (id: X): Once''"

definition cache_example :: cache where
  "cache_example = [(u ''B'', entry_intro)]"

definition chapter_titled :: "ustr \<Rightarrow> ustr \<Rightarrow> json" where
  "chapter_titled title new_id =
     JDict [(u ''title'', JStr title), (u ''_id'', JStr new_id),
            (u ''content'', JStr (u ''Once''))]"


definition book_null_creator :: json where
  "book_null_creator =
     JDict [(u ''title'', JStr (u ''Tales'')), (u ''creator'', JNull)]"


section \<open>Properties of the validator and the renderer\<close>





lemmas validate_defs =
  validate_chapter_json_def validate_segment_def check_typed_segment_def text_errors_def
  narrative_errors_def in_text_errors_def raw_tag_errors_def dash_errors_def title_errors_def
  title_dup_errors_def has_raw_tag_def dget_def has_key_def VALID_SEGMENT_TYPES_def
  NARRATIVE_TYPES_def RAW_TAGS_def strip_def is_space_def lower_def lower_char_def
  startswith_def EM_DASH_def SQ_def DQ_def

lemmas render_defs =
  segments_to_markup_def segment_parts_def as_part_def with_narrative_def wrap_text_def
  dget_or_empty_def EM_DASH_def NL_def

text \<open>
  Claim C1. The validator is to return a list of violations for every input and never to
  raise. It does so for an input that is not an object (lemma \<open>validate_not_an_object\<close>
  below) and for every object but those with a segment whose \<open>type\<close> is a list or a dict
  (lemma \<open>validate_raises_only_on_unhashable_type\<close>): on the document
  \<open>{"title": "Ch1", "segments": [{"type": []}]}\<close> the membership test
  \<open>stype not in VALID_SEGMENT_TYPES\<close> hashes a list and the validator raises
  \<open>TypeError\<close>.
\<close>

theorem validate_raises_on_unhashable_type:
  "validate_chapter_json doc_unhashable_type = Inl TypeError"
  by (simp add: doc_unhashable_type_def validate_defs u_def)

lemma validate_not_an_object:
  "validate_chapter_json JNull = Inr [u ''Input must be a JSON object (dict), not '' @ u ''NoneType'']"
  "validate_chapter_json (JBool b) = Inr [u ''Input must be a JSON object (dict), not '' @ u ''bool'']"
  "validate_chapter_json (JInt n) = Inr [u ''Input must be a JSON object (dict), not '' @ u ''int'']"
  "validate_chapter_json (JFloat r) = Inr [u ''Input must be a JSON object (dict), not '' @ u ''float'']"
  "validate_chapter_json (JStr s) = Inr [u ''Input must be a JSON object (dict), not '' @ u ''str'']"
  "validate_chapter_json (JList xs) = Inr [u ''Input must be a JSON object (dict), not '' @ u ''list'']"
  by (simp_all add: validate_chapter_json_def)

text \<open>
  The messages of a document are those of the title, those of each segment in turn and
  the one for a heading that repeats the title: what one turn of the loop appends for a
  segment is part of the result for the document. And the validator raises nothing but
  the \<open>TypeError\<close> of a segment whose \<open>type\<close> is a list or a dict.
\<close>

lemma validate_segments_nth:
  "validate_segments k segs = Inr errs \<Longrightarrow> j < length segs \<Longrightarrow>
   \<exists>es. validate_segment (k + j) (segs ! j) = Inr es \<and> set es \<subseteq> set errs"
proof (induction segs arbitrary: k j errs)
  case Nil
  then show ?case by simp
next
  case (Cons seg segs)
  from Cons.prems(1) obtain es es' where
    seg: "validate_segment k seg = Inr es" and
    rest: "validate_segments (Suc k) segs = Inr es'" and
    errs: "errs = es @ es'"
    by (auto split: sum.splits)
  show ?case
  proof (cases j)
    case 0
    with seg errs show ?thesis by simp
  next
    case (Suc j')
    with Cons.prems(2) have "j' < length segs" by simp
    from Cons.IH [OF rest this] Suc errs show ?thesis
      by auto
  qed
qed

lemma validate_document_segment:
  assumes "validate_chapter_json (JDict d) = Inr errs"
      and "dget d (u ''segments'') = JList segs"
      and "j < length segs"
  shows "\<exists>es. validate_segment j (segs ! j) = Inr es \<and> set es \<subseteq> set errs"
proof -
  from assms(3) have ne: "segs \<noteq> []" by auto
  with assms(1,2) obtain es where
    all: "validate_segments 0 segs = Inr es" and
    errs: "errs = title_errors (dget d (u ''title'')) @ es
             @ title_dup_errors (dget d (u ''title'')) segs"
    by (auto simp: validate_chapter_json_def Let_def split: sum.splits)
  from errs have "set es \<subseteq> set errs"
    by auto
  with validate_segments_nth [OF all assms(3)] show ?thesis
    by auto
qed

lemma validate_segment_raises:
  "validate_segment i seg = Inl e \<Longrightarrow>
   e = TypeError \<and>
   (\<exists>d x. seg = JDict d \<and> (dget d (u ''type'') = JList x \<or> (\<exists>y. dget d (u ''type'') = JDict y)))"
  by (auto simp: validate_segment_def split: json.splits if_splits)

lemma validate_segments_raises:
  "validate_segments k segs = Inl e \<Longrightarrow>
   \<exists>j < length segs. validate_segment (k + j) (segs ! j) = Inl e"
proof (induction segs arbitrary: k)
  case Nil
  then show ?case by simp
next
  case (Cons seg segs)
  show ?case
  proof (cases "validate_segment k seg")
    case (Inl e')
    with Cons.prems have "e' = e" by simp
    with Inl have "validate_segment (k + 0) ((seg # segs) ! 0) = Inl e" by simp
    then show ?thesis by blast
  next
    case (Inr es)
    with Cons.prems have "validate_segments (Suc k) segs = Inl e"
      by (auto split: sum.splits)
    from Cons.IH [OF this] obtain j where
      "j < length segs" "validate_segment (Suc k + j) (segs ! j) = Inl e"
      by blast
    then have "Suc j < length (seg # segs)"
      "validate_segment (k + Suc j) ((seg # segs) ! Suc j) = Inl e"
      by simp_all
    then show ?thesis by blast
  qed
qed

lemma validate_raises_only_on_unhashable_type:
  assumes "validate_chapter_json data = Inl e"
  shows "e = TypeError \<and>
     (\<exists>d segs j sd. data = JDict d \<and> dget d (u ''segments'') = JList segs \<and> j < length segs \<and>
        segs ! j = JDict sd \<and>
        ((\<exists>x. dget sd (u ''type'') = JList x) \<or> (\<exists>y. dget sd (u ''type'') = JDict y)))"
proof -
  from assms obtain d segs where
    d: "data = JDict d" and segs: "dget d (u ''segments'') = JList segs" and
    r: "validate_segments 0 segs = Inl e"
    by (auto simp: validate_chapter_json_def Let_def split: json.splits sum.splits if_splits)
  from validate_segments_raises [OF r] obtain j where
    j: "j < length segs" "validate_segment j (segs ! j) = Inl e"
    by auto
  from validate_segment_raises [OF j(2)] d segs j(1) show ?thesis
    by blast
qed

text \<open>
  Claim C4. The document
  \<open>{"title":"Ch1","segments":[{"type":"dialogue","text":"Hello","narrative":"she said"}]}\<close>
  validates with no violation, and rendering its segment list gives the em-dash, a space,
  \<open>Hello\<close>, a space, the em-dash, a space and \<open>she said\<close>.
\<close>

theorem example_dialogue_validates_and_renders:
  "validate_chapter_json doc_dialogue = Inr [] \<and>
   segments_to_markup
     [JDict [(u ''type'', JStr (u ''dialogue'')), (u ''text'', JStr (u ''Hello'')),
             (u ''narrative'', JStr (u ''she said''))]]
     = Inr ([EM_DASH, 32] @ u ''Hello'' @ [32, EM_DASH, 32] @ u ''she said'')"
  by (simp add: doc_dialogue_def validate_defs render_defs u_def)





















section \<open>Properties of the cache entry and of the order index\<close>

lemma last_dropWhile: "dropWhile P xs \<noteq> [] \<Longrightarrow> last (dropWhile P xs) = last xs"
  by (induction xs) (auto split: if_splits)

lemma dropWhile_keeps: "xs \<noteq> [] \<Longrightarrow> \<not> P (hd xs) \<Longrightarrow> dropWhile P xs = xs"
  by (cases xs) simp_all

lemma trimmed_strip: "trimmed (strip s)"
proof (cases "strip s = []")
  case True
  then show ?thesis by (simp add: trimmed_def)
next
  case False
  let ?a = "dropWhile is_space s"
  let ?b = "dropWhile is_space (rev ?a)"
  from False have b: "?b \<noteq> []"
    by (simp add: strip_def)
  have a: "?a \<noteq> []"
  proof
    assume "?a = []"
    with b show False by simp
  qed
  have "\<not> is_space (hd ?b)"
    using b by (rule hd_dropWhile)
  then have l: "\<not> is_space (last (strip s))"
    using b by (simp add: strip_def last_rev)
  have "last ?b = last (rev ?a)"
    using b by (rule last_dropWhile)
  then have "hd (strip s) = hd ?a"
    using a b by (simp add: strip_def hd_rev last_rev)
  moreover have "\<not> is_space (hd ?a)"
    using a by (rule hd_dropWhile)
  ultimately show ?thesis
    using l by (simp add: trimmed_def)
qed

lemma strip_of_trimmed: "trimmed s \<Longrightarrow> strip s = s"
proof (cases s)
  case Nil
  then show ?thesis by (simp add: strip_def)
next
  case (Cons c cs)
  assume "trimmed s"
  with Cons have h: "\<not> is_space c" and l: "\<not> is_space (last s)"
    by (simp_all add: trimmed_def)
  from h Cons have "dropWhile is_space s = s"
    by simp
  moreover have "dropWhile is_space (rev s) = rev s"
  proof (rule dropWhile_keeps)
    show "rev s \<noteq> []" using Cons by simp
    show "\<not> is_space (hd (rev s))" using l by (simp add: hd_rev)
  qed
  ultimately show ?thesis
    by (simp add: strip_def)
qed

lemma trimmed_dots: "trimmed p \<Longrightarrow> trimmed (p @ u ''...'')"
  by (cases p) (auto simp: trimmed_def u_def is_space_def)

lemma length_strip_le: "length (strip s) \<le> length s"
proof -
  have "length (dropWhile is_space (rev (dropWhile is_space s))) \<le> length (rev (dropWhile is_space s))"
    by (rule length_dropWhile_le)
  also have "\<dots> \<le> length s"
    by (simp add: length_dropWhile_le)
  finally show ?thesis
    by (simp add: strip_def)
qed

lemma set_strip: "set (strip s) \<subseteq> set s"
proof -
  have "set (dropWhile is_space (rev (dropWhile is_space s))) \<subseteq> set (rev (dropWhile is_space s))"
    by (rule set_dropWhileD [THEN subsetI])
  also have "\<dots> \<subseteq> set s"
    by (auto dest: set_dropWhileD)
  finally show ?thesis
    by (simp add: strip_def)
qed

lemma length_replace_space: "length (replace_char a (u '' '') s) = length s"
  by (induction s) (auto simp: replace_char_def u_def)

lemma no_newline_after_replace: "NL \<notin> set (replace_char NL (u '' '') s)"
  by (induction s) (auto simp: replace_char_def u_def NL_def)

lemma replace_char_absent: "a \<notin> set s \<Longrightarrow> replace_char a new s = s"
  by (induction s) (auto simp: replace_char_def)

lemma chapter_preview_parts:
  "chapter_preview c =
     strip (replace_char NL (u '' '') (take 200 c)) @ (if length c > 200 then u ''...'' else [])"
  by (simp add: chapter_preview_def Let_def)

text \<open>
  Claim C5, as amended. The preview both cache writers store for a chapter is the first
  200 characters of its content with every newline replaced by a space and then trimmed,
  which is at most 200 characters long, followed by \<open>...\<close> exactly when the content is
  longer than 200 characters. The stored preview is therefore at most 203 characters long
  (not 200), contains no newline and is trimmed.
\<close>

theorem preview_shape:
  "chapter_preview c =
     strip (replace_char NL (u '' '') (take 200 c)) @ (if length c > 200 then u ''...'' else [])
   \<and> length (strip (replace_char NL (u '' '') (take 200 c))) \<le> 200
   \<and> length (chapter_preview c) \<le> 203
   \<and> NL \<notin> set (chapter_preview c)
   \<and> strip (chapter_preview c) = chapter_preview c"
proof -
  define p where "p = strip (replace_char NL (u '' '') (take 200 c))"
  have parts: "chapter_preview c = p @ (if length c > 200 then u ''...'' else [])"
    unfolding p_def by (rule chapter_preview_parts)
  have len: "length p \<le> 200"
  proof -
    have "length p \<le> length (replace_char NL (u '' '') (take 200 c))"
      unfolding p_def by (rule length_strip_le)
    also have "\<dots> = length (take 200 c)"
      by (rule length_replace_space)
    also have "\<dots> \<le> 200"
      by simp
    finally show ?thesis .
  qed
  have dots: "length (u ''...'') = 3" "NL \<notin> set (u ''...'')"
    by (simp_all add: u_def NL_def)
  have total: "length (chapter_preview c) \<le> 203"
    using len dots(1) by (simp add: parts)
  have "NL \<notin> set p"
    using set_strip [of "replace_char NL (u '' '') (take 200 c)"]
      no_newline_after_replace [of "take 200 c"]
    unfolding p_def by blast
  then have nl: "NL \<notin> set (chapter_preview c)"
    using dots(2) by (simp add: parts)
  have "trimmed p"
    unfolding p_def by (rule trimmed_strip)
  then have "trimmed (chapter_preview c)"
    by (simp add: parts trimmed_dots)
  then have tr: "strip (chapter_preview c) = chapter_preview c"
    by (rule strip_of_trimmed)
  from len total nl tr parts show ?thesis
    unfolding p_def by blast
qed

text \<open>
  The bound of 200 characters fails for a content of 201 letters \<open>a\<close>: its preview is
  the first 200 of them and the three dots, 203 characters.
\<close>

theorem preview_longer_than_200_counterexample:
  "length (replicate 201 (97::nat)) = 201 \<and> length (chapter_preview (replicate 201 97)) = 203"
proof -
  have t: "take 200 (replicate 201 (97::nat)) = replicate 200 97"
    by simp
  have r: "replace_char NL (u '' '') (replicate 200 97) = replicate 200 97"
    by (rule replace_char_absent) (simp add: NL_def)
  have "trimmed (replicate 200 97)"
    by (simp add: trimmed_def is_space_def)
  then have "strip (replicate 200 97) = replicate 200 97"
    by (rule strip_of_trimmed)
  with t r show ?thesis
    by (simp add: chapter_preview_parts u_def)
qed

lemma max_by_mem: "max_by key best xs \<in> set (best # xs)"
proof (induction xs arbitrary: best)
  case Nil
  then show ?case by simp
next
  case (Cons x xs)
  from Cons.IH [of "if key x > key best then x else best"] show ?case
    by (auto split: if_splits)
qed

lemma max_by_ge: "y \<in> set (best # xs) \<Longrightarrow> key y \<le> key (max_by key best xs)"
proof (induction xs arbitrary: best y)
  case Nil
  then show ?case by simp
next
  case (Cons x xs)
  let ?b = "if key x > key best then x else best"
  have b: "key ?b \<le> key (max_by key ?b xs)"
    by (rule Cons.IH) simp
  have "key best \<le> key ?b" "key x \<le> key ?b"
    by simp_all
  with b have "key best \<le> key (max_by key ?b xs)" "key x \<le> key (max_by key ?b xs)"
    by linarith+
  moreover have "y \<in> set xs \<Longrightarrow> key y \<le> key (max_by key ?b xs)"
    by (rule Cons.IH) simp
  ultimately show ?case
    using Cons.prems by auto
qed

lemma order_value_max_by:
  "order_value (max_by order_value best xs) = Max (order_value ` set (best # xs))"
proof (rule Max_eqI [symmetric])
  show "finite (order_value ` set (best # xs))"
    by simp
  show "order_value (max_by order_value best xs) \<in> order_value ` set (best # xs)"
    using max_by_mem [of order_value best xs] by blast
  fix v
  assume "v \<in> order_value ` set (best # xs)"
  then show "v \<le> order_value (max_by order_value best xs)"
    using max_by_ge [of _ best xs order_value] by blast
qed

text \<open>
  Claim C10. The \<open>orderIndex\<close> given to a new chapter is 0 when the book has no chapter;
  otherwise it is one more than the larger of the largest order value among the chapters
  and their count less one, where the order value of a chapter is its integer
  \<open>orderIndex\<close>, or -1 when that is missing or not an integer. It is strictly greater
  than the order value of every chapter, so than every integer \<open>orderIndex\<close> there is.
\<close>

theorem order_index_exceeds_existing:
  "order_index [] = 0
   \<and> (ch_list \<noteq> [] \<longrightarrow>
        order_index ch_list =
          max (Max (order_value ` set ch_list)) (int (length ch_list) - 1) + 1)
   \<and> (\<forall>ch \<in> set ch_list. order_value ch < order_index ch_list)
   \<and> (\<forall>ch \<in> set ch_list. \<forall>n. ch_orderIndex ch = Some (JInt n) \<longrightarrow> n < order_index ch_list)
   \<and> (\<forall>ch. ch_orderIndex ch = None \<longrightarrow> order_value ch = - 1)"
proof -
  have eq: "ch_list \<noteq> [] \<longrightarrow>
        order_index ch_list =
          max (Max (order_value ` set ch_list)) (int (length ch_list) - 1) + 1"
    by (cases ch_list) (simp_all add: order_index_def order_value_max_by)
  have gt: "\<forall>ch \<in> set ch_list. order_value ch < order_index ch_list"
  proof
    fix ch
    assume ch: "ch \<in> set ch_list"
    then have "ch_list \<noteq> []" by auto
    moreover from ch have "order_value ch \<le> Max (order_value ` set ch_list)"
      by simp
    ultimately show "order_value ch < order_index ch_list"
      using eq by simp
  qed
  have "\<forall>ch \<in> set ch_list. \<forall>n. ch_orderIndex ch = Some (JInt n) \<longrightarrow> n < order_index ch_list"
  proof (intro ballI allI impI)
    fix ch n
    assume "ch \<in> set ch_list" and "ch_orderIndex ch = Some (JInt n)"
    then show "n < order_index ch_list"
      using gt by (force simp: order_value_def)
  qed
  with eq gt show ?thesis
    by (simp add: order_index_def order_value_def)
qed

theorem order_index_exceeds_existing_witness:
  "[chapter_at (Some (JInt 5)), chapter_at None] \<noteq> []
   \<and> order_index [chapter_at (Some (JInt 5)), chapter_at None] = 6
   \<and> chapter_at (Some (JInt 5)) \<in> set [chapter_at (Some (JInt 5)), chapter_at None]
   \<and> order_value (chapter_at (Some (JInt 5))) = 5
   \<and> order_value (chapter_at None) = - 1
   \<and> order_value (chapter_at (Some (JInt 5))) < order_index [chapter_at (Some (JInt 5)), chapter_at None]"
proof -
  have v: "order_value (chapter_at (Some (JInt 5))) = 5" "order_value (chapter_at None) = - 1"
    by (simp_all add: order_value_def chapter_at_def)
  note t = order_index_exceeds_existing [of "[chapter_at (Some (JInt 5)), chapter_at None]"]
  from t have "order_index [chapter_at (Some (JInt 5)), chapter_at None] =
      max (Max (order_value ` set [chapter_at (Some (JInt 5)), chapter_at None])) (int (length [chapter_at (Some (JInt 5)), chapter_at None]) - 1) + 1"
    by blast
  then have six: "order_index [chapter_at (Some (JInt 5)), chapter_at None] = 6"
    using v by simp
  from t have "order_value (chapter_at (Some (JInt 5))) < order_index [chapter_at (Some (JInt 5)), chapter_at None]"
    by simp
  with six v show ?thesis
    by simp
qed

section \<open>Properties of the freshness test\<close>

lemma partition_at_skip:
  "c \<noteq> d \<Longrightarrow>
   partition_at [d] (c # s) =
     (case partition_at [d] s of None \<Rightarrow> None | Some (a, b) \<Rightarrow> Some (c # a, b))"
  by (simp add: startswith_def)

lemma partition_at_hit: "partition_at [d] (d # s) = Some ([], s)"
  by (simp add: startswith_def)

lemma partition_last_read:
  "partition_at (u '':'') (LAST_READ @ rest) = Some (u ''**Last Read**'', rest)"
proof -
  have "partition_at [58] ([42, 42, 76, 97, 115, 116, 32, 82, 101, 97, 100, 42, 42, 58] @ rest)
      = Some ([42, 42, 76, 97, 115, 116, 32, 82, 101, 97, 100, 42, 42], rest)"
    by (simp add: partition_at_skip partition_at_hit del: partition_at.simps)
  then show ?thesis
    by (simp add: LAST_READ_def u_def del: partition_at.simps)
qed

lemma split_once_last_read:
  assumes "startswith line LAST_READ"
  shows "index (split_once (u '':'') line) (Suc 0) = Some (drop (length LAST_READ) line)"
proof -
  from assms have "line = LAST_READ @ drop (length LAST_READ) line"
    by (metis append_take_drop_id startswith_def)
  then have "partition_at (u '':'') line = Some (u ''**Last Read**'', drop (length LAST_READ) line)"
    using partition_last_read [of "drop (length LAST_READ) line"] by simp
  then show ?thesis
    by (simp add: split_once_def index_def)
qed

lemma fresh_scan_no_line:
  "filter is_last_read_line lines = [] \<Longrightarrow> fresh_scan f now lines = Inr None"
proof (induction lines)
  case Nil
  then show ?case by simp
next
  case (Cons l ls)
  from Cons.prems have a: "\<not> is_last_read_line l" and b: "filter is_last_read_line ls = []"
    by (simp_all split: if_splits)
  from a have "\<not> startswith l LAST_READ"
    by (simp add: is_last_read_line_def)
  with Cons.IH [OF b] show ?case
    by simp
qed

lemma fresh_scan_step:
  "is_last_read_line line \<Longrightarrow>
   fresh_scan f now (line # rest) =
     (case f (timestamp_text line) of
        ParseError \<Rightarrow> fresh_scan f now rest
      | Naive t \<Rightarrow> Inl TypeError
      | Aware t \<Rightarrow> if age_days now t < 7 then Inr (Some (age_days now t))
                   else fresh_scan f now rest)"
  by (simp add: is_last_read_line_def split_once_last_read timestamp_text_def)

lemma fresh_scan_one_line:
  "filter is_last_read_line lines = [line] \<Longrightarrow>
   fresh_scan f now lines =
     (case f (timestamp_text line) of
        ParseError \<Rightarrow> Inr None
      | Naive t \<Rightarrow> Inl TypeError
      | Aware t \<Rightarrow> if age_days now t < 7 then Inr (Some (age_days now t)) else Inr None)"
proof (induction lines)
  case Nil
  then show ?case by simp
next
  case (Cons l ls)
  show ?case
  proof (cases "is_last_read_line l")
    case True
    with Cons.prems have "l = line" and "filter is_last_read_line ls = []"
      by simp_all
    then show ?thesis
      using True by (simp only: fresh_scan_step fresh_scan_no_line)
  next
    case False
    with Cons.prems have "filter is_last_read_line ls = [line]"
      by simp
    from False have "fresh_scan f now (l # ls) = fresh_scan f now ls"
      by (simp add: is_last_read_line_def)
    with Cons.IH [OF \<open>filter is_last_read_line ls = [line]\<close>] show ?thesis
      by (simp only:)
  qed
qed

lemma age_days_less_7: "age_days now t < 7 \<longleftrightarrow> now - t < 7 * DAY_US"
proof -
  define x where "x = now - t"
  define q where "q = x div 86400000000"
  define r where "r = x mod 86400000000"
  have "x = 86400000000 * q + r"
    by (simp add: q_def r_def)
  moreover have "0 \<le> r" "r < 86400000000"
    by (simp_all add: r_def)
  ultimately have "q < 7 \<longleftrightarrow> x < 7 * 86400000000"
    by linarith
  then show ?thesis
    by (simp add: age_days_def DAY_US_def q_def x_def)
qed

lemma is_fresh_one_line:
  assumes "filter is_last_read_line (splitlines content) = [line]"
  shows "is_fresh f now content =
     (case f (timestamp_text line) of
        ParseError \<Rightarrow> Inr False
      | Naive t \<Rightarrow> Inl TypeError
      | Aware t \<Rightarrow> Inr (now - t < 7 * DAY_US))"
  by (simp add: is_fresh_def fresh_scan_one_line [OF assms] age_days_less_7 [symmetric]
      split: parsed.splits)

text \<open>
  Fetching never ends as a cached read, so \<open>cmd_read\<close> without \<open>--refresh\<close> serves the
  entry of the cache exactly when the scan of its lines finds it fresh.
\<close>

lemma fetch_and_write_not_cached:
  "fst (fetch_and_write stamp rem c book_id) \<noteq> Read_cached content d"
  by (simp add: fetch_and_write_def Let_def split: option.splits sum.splits)

lemma cmd_read_serves_cache_iff_fresh:
  assumes "map_of c book_id = Some text"
  shows "is_fresh f now (read_text text) = Inr True \<longleftrightarrow>
         (\<exists>d. cmd_read f now stamp rem c book_id False = (Read_cached (read_text text) d, c))"
proof -
  have "\<And>d. fetch_and_write stamp rem c book_id \<noteq> (Read_cached (read_text text) d, c)"
    using fetch_and_write_not_cached [of stamp rem c book_id] by (metis fst_conv)
  then show ?thesis
    using assms
    by (auto simp: cmd_read_def is_fresh_def split: sum.splits option.splits)
qed

text \<open>
  On an entry with a single \<open>**Last Read**:\<close> line the scan is the test of seven days on
  the timestamp of that line when \<open>fromisoformat\<close> gives a time with an offset; a text
  it refuses leaves the entry stale; a time without an offset makes the subtraction from
  \<open>datetime.now(timezone.utc)\<close> raise \<open>TypeError\<close>, which the \<open>except\<close> clause does not
  catch.
\<close>

lemma one_line_entry_fresh_iff:
  assumes "filter is_last_read_line (splitlines content) = [line]"
  shows "(\<forall>t. fromisoformat (timestamp_text line) = Aware t \<longrightarrow>
            is_fresh fromisoformat now content = Inr (now - t < 7 * DAY_US))
       \<and> (fromisoformat (timestamp_text line) = ParseError \<longrightarrow>
            is_fresh fromisoformat now content = Inr False)
       \<and> (\<forall>t. fromisoformat (timestamp_text line) = Naive t \<longrightarrow>
            is_fresh fromisoformat now content = Inl TypeError)"
  by (simp add: is_fresh_one_line [OF assms])

text \<open>
  The entry \<open>cmd_read\<close> writes for the book whose description is a \<open>**Last Read**:\<close>
  line, and the scan of that entry thirty days later.
\<close>

lemma read_text_entry_stamped: "read_text entry_stamped = entry_stamped"
  by (simp add: entry_stamped_def u_def NL_def)

lemma splitlines_entry_stamped:
  "splitlines entry_stamped =
     [u ''# Book Summary: Tales'', u ''**Book ID**: B'', u ''**Author**: Unknown'',
      u ''**Publisher**: Unknown'', u ''**Last Read**: 2024-01-01T00:00:00Z'',
      u ''**Chapters**: 0'', [], u ''## Description'',
      u ''**Last Read**: 2024-01-28T00:00:00Z'', [], u ''## Chapters'']"
  by (simp add: splitlines_def entry_stamped_def u_def NL_def is_linebreak_def)

lemma str_nat_0: "str_nat 0 = u ''0''"
  by (simp add: str_nat.simps u_def)

lemma written_entry_stamped:
  "fetch_and_write (u ''2024-01-01T00:00:00Z'') (remote_example book_stamped (JList [])) []
     (u ''B'') = (Read_summary entry_stamped, [(u ''B'', entry_stamped)])"
proof -
  have paths: "book_path (u ''B'') \<noteq> chapters_path (u ''B'')"
    by (simp add: book_path_def chapters_path_def u_def)
  have book: "quiet (remote_example book_stamped (JList []) (book_path (u ''B''))) = book_stamped"
    "remote_example book_stamped (JList []) (chapters_path (u ''B'')) = Some (JList [])"
    using paths by (simp_all add: remote_example_def quiet_def)
  have fields: "book_fields book_stamped =
      Inr (JStr (u ''Tales''), JStr (u ''Unknown''), JStr (u ''Unknown''), JStr [],
           JStr (u ''**Last Read**: 2024-01-28T00:00:00Z''))"
    by (simp add: book_fields_def book_stamped_def name_of_def dget_default_def and_then_def u_def)
  have summary: "summary_of (u ''2024-01-01T00:00:00Z'') (u ''B'')
      (JStr (u ''Tales''), JStr (u ''Unknown''), JStr (u ''Unknown''), JStr [],
       JStr (u ''**Last Read**: 2024-01-28T00:00:00Z'')) (JList []) = Inr entry_stamped"
    by (simp add: summary_of_def and_then_def py_len_def iterate_def str_nat_0 entry_stamped_def
        u_def NL_def)
  have t: "truthy book_stamped"
    by (simp add: book_stamped_def)
  show ?thesis
    by (simp add: fetch_and_write_def book t fields chapters_of_def summary write_text_def)
qed

lemma fresh_scan_entry_stamped:
  "fresh_scan iso_january (30 * DAY_US) (splitlines entry_stamped) = Inr (Some 3)"
proof -
  have header: "is_last_read_line (u ''**Last Read**: 2024-01-01T00:00:00Z'')"
    and descr: "is_last_read_line (u ''**Last Read**: 2024-01-28T00:00:00Z'')"
    by (simp_all add: is_last_read_line_def LAST_READ_def startswith_def u_def)
  have t1: "iso_january (timestamp_text (u ''**Last Read**: 2024-01-01T00:00:00Z'')) = Aware 0"
    by (simp add: timestamp_text_def LAST_READ_def strip_def is_space_def replace_char_def
        iso_january_def u_def)
  have t2: "iso_january (timestamp_text (u ''**Last Read**: 2024-01-28T00:00:00Z''))
      = Aware (27 * DAY_US)"
    by (simp add: timestamp_text_def LAST_READ_def strip_def is_space_def replace_char_def
        iso_january_def u_def)
  have a1: "\<not> age_days (30 * DAY_US) 0 < 7"
    and a2: "age_days (30 * DAY_US) (27 * DAY_US) = 3"
    by (simp_all add: age_days_def DAY_US_def)
  have skip: "\<And>line rest. \<not> startswith line LAST_READ \<Longrightarrow>
      fresh_scan iso_january (30 * DAY_US) (line # rest) = fresh_scan iso_january (30 * DAY_US) rest"
    by simp
  have no: "\<not> startswith (u ''# Book Summary: Tales'') LAST_READ"
    "\<not> startswith (u ''**Book ID**: B'') LAST_READ"
    "\<not> startswith (u ''**Author**: Unknown'') LAST_READ"
    "\<not> startswith (u ''**Publisher**: Unknown'') LAST_READ"
    "\<not> startswith (u ''**Chapters**: 0'') LAST_READ"
    "\<not> startswith [] LAST_READ"
    "\<not> startswith (u ''## Description'') LAST_READ"
    by (simp_all add: startswith_def LAST_READ_def u_def)
  show ?thesis
    unfolding splitlines_entry_stamped
    by (simp only: skip [OF no(1)] skip [OF no(2)] skip [OF no(3)] skip [OF no(4)]
        skip [OF no(5)] skip [OF no(6)] skip [OF no(7)]
        fresh_scan_step [OF header] fresh_scan_step [OF descr] t1 t2 a1 a2
        parsed.case if_False if_True)
       simp
qed

text \<open>
  Claim C3 (cache freshness: an entry is fresh if and only if now minus its time of last
  reading is less than seven days). The scan has no \<open>break\<close> and takes every line that
  starts with \<open>**Last Read**:\<close>, and the description of the book is written into the
  entry as it is. On 2024-01-01 \<open>cmd_read\<close> fetches the book \<open>B\<close>, whose description is
  the line \<open>**Last Read**: 2024-01-28T00:00:00Z\<close>, and writes the entry with the time of
  reading 2024-01-01T00:00:00Z. Thirty days later that entry, thirty days old, is served
  from the cache as three days old: the header line is found stale and the scan goes on to
  the line of the description.
\<close>

theorem stale_entry_served_by_description_line:
  "cmd_read iso_january 0 (u ''2024-01-01T00:00:00Z'') (remote_example book_stamped (JList []))
     [] (u ''B'') False
     = (Read_summary entry_stamped, [(u ''B'', entry_stamped)])
   \<and> iso_january (timestamp_text (u ''**Last Read**: 2024-01-01T00:00:00Z'')) = Aware 0
   \<and> age_days (30 * DAY_US) 0 = 30
   \<and> cmd_read iso_january (30 * DAY_US) (u ''2024-01-31T00:00:00Z'')
       (remote_example book_stamped (JList [])) [(u ''B'', entry_stamped)] (u ''B'') False
     = (Read_cached entry_stamped 3, [(u ''B'', entry_stamped)])"
proof -
  have w: "cmd_read iso_january 0 (u ''2024-01-01T00:00:00Z'')
      (remote_example book_stamped (JList [])) [] (u ''B'') False
     = (Read_summary entry_stamped, [(u ''B'', entry_stamped)])"
    by (simp add: cmd_read_def written_entry_stamped)
  have t1: "iso_january (timestamp_text (u ''**Last Read**: 2024-01-01T00:00:00Z'')) = Aware 0"
    by (simp add: timestamp_text_def LAST_READ_def strip_def is_space_def replace_char_def
        iso_january_def u_def)
  have a: "age_days (30 * DAY_US) 0 = 30"
    by (simp add: age_days_def DAY_US_def)
  have r: "cmd_read iso_january (30 * DAY_US) (u ''2024-01-31T00:00:00Z'')
       (remote_example book_stamped (JList [])) [(u ''B'', entry_stamped)] (u ''B'') False
     = (Read_cached entry_stamped 3, [(u ''B'', entry_stamped)])"
    by (simp add: cmd_read_def read_text_entry_stamped fresh_scan_entry_stamped)
  from w t1 a r show ?thesis
    by simp
qed

section \<open>Properties of the stale-identifier resolution\<close>

text \<open>
  The example service, cache and chapters evaluated.
\<close>

lemma remote_example_simps:
  "quiet (remote_example book chapters (chapter_path (u ''X''))) = JNull"
  "quiet (remote_example book chapters (book_path (u ''B''))) = book"
  "fresh_chapters (remote_example book chapters) (u ''B'') = chapters_of chapters"
  by (simp_all add: remote_example_def quiet_def fresh_chapters_def book_path_def
      chapter_path_def chapters_path_def u_def)

lemma find_stale_example:
  "find_stale_book (u ''X'') cache_example = Some (u ''B'', entry_intro)"
  by (simp add: find_stale_book_def cache_example_def entry_intro_def u_def NL_def
      startswith_def)

lemma title_hint_example: "title_hint (u ''X'') entry_intro = Some (u ''Intro'')"
  by (simp add: title_hint_def entry_intro_def u_def NL_def split.simps startswith_def
      index_def)

lemma B_not_empty: "u ''B'' \<noteq> []"
  by (simp add: u_def)

lemma Intro_not_empty: "u ''Intro'' \<noteq> []"
  by (simp add: u_def)

lemma unlink_cache_example: "unlink (u ''B'') cache_example = []"
  by (simp add: unlink_def cache_example_def)

text \<open>
  When the identifier is unknown to the service and a cache entry contains it, the command
  goes on as \<open>refresh_and_match\<close> does, after one line of output.
\<close>

lemma cmd_chapter_read_stale:
  assumes "\<not> truthy (quiet (rem (chapter_path chapter_id)))"
      and "find_stale_book chapter_id c = Some (stale_book, content)"
      and "stale_book \<noteq> []"
  shows "fst (cmd_chapter_read str_lower stamp rem c chapter_id) =
         fst (refresh_and_match str_lower stamp rem c chapter_id stale_book
                (title_hint chapter_id content))"
    and "fst (snd (cmd_chapter_read str_lower stamp rem c chapter_id)) =
         fst (snd (refresh_and_match str_lower stamp rem c chapter_id stale_book
                     (title_hint chapter_id content)))"
    and "snd (snd (cmd_chapter_read str_lower stamp rem c chapter_id)) =
         [u ''  Chapter ID not found, checking for stale cache...'']
         @ snd (snd (refresh_and_match str_lower stamp rem c chapter_id stale_book
                       (title_hint chapter_id content)))"
  using assms
  by (simp_all add: cmd_chapter_read_def Let_def split: prod.splits)

lemma refresh_and_match_searches:
  assumes "truthy (quiet (rem (book_path stale_book)))"
      and "truthy (fresh_chapters rem stale_book)"
  shows "refresh_and_match str_lower stamp rem c chapter_id stale_book info =
     (case match_chapter str_lower info (fresh_chapters rem stale_book) of
        Inl e \<Rightarrow> (Raised e, unlink stale_book c,
                  [u ''  Found stale ID in cached book: '' @ stale_book,
                   u ''  Auto-refreshing book cache...''])
      | Inr None \<Rightarrow>
          manual_fallback stamp (unlink stale_book c) stale_book
            (quiet (rem (book_path stale_book))) (fresh_chapters rem stale_book)
            [u ''  Found stale ID in cached book: '' @ stale_book,
             u ''  Auto-refreshing book cache...'']
      | Inr (Some matched) \<Rightarrow>
          (if truthy matched
           then use_match stamp (unlink stale_book c) chapter_id stale_book
                  (quiet (rem (book_path stale_book))) (fresh_chapters rem stale_book) matched
                  [u ''  Found stale ID in cached book: '' @ stale_book,
                   u ''  Auto-refreshing book cache...'']
           else manual_fallback stamp (unlink stale_book c) stale_book
                  (quiet (rem (book_path stale_book))) (fresh_chapters rem stale_book)
                  [u ''  Found stale ID in cached book: '' @ stale_book,
                   u ''  Auto-refreshing book cache...'']))"
  using assms by (simp add: refresh_and_match_def Let_def)




lemma str_nat_small:
  "str_nat (Suc 0) = [49]" "str_nat 2 = [50]" "str_nat (Suc (Suc 0)) = [50]"
  by (simp_all add: str_nat.simps)

lemma chapter_titled_simps:
  "chapter_title (chapter_titled t i) = Inr t"
  "truthy (chapter_titled t i)"
  "listing_line k (chapter_titled t i)
     = Inr (u ''    '' @ str_nat (k + 1) @ u ''. '' @ t @ u '' (id: '' @ i @ u '')'')"
  "chapter_line k (chapter_titled t i)
     = Inr (u ''- **'' @ t @ u ''** (id: '' @ i @ u ''): Once'')"
  by (simp_all add: chapter_title_def chapter_titled_def listing_line_def chapter_line_def
      dget_default_def and_then_def content_preview_def chapter_preview_def replace_char_def
      strip_def is_space_def u_def NL_def)

lemma title_keys_example:
  "title_key lower (u '' INTRO '') = title_key lower (u ''Intro'')"
  "title_key lower (u ''Prologue'') \<noteq> title_key lower (u ''Intro'')"
  by (simp_all add: title_key_def strip_def lower_def lower_char_def is_space_def u_def)

text \<open>
  A book whose \<open>creator\<close> is \<open>null\<close>: \<open>book.get("creator", {})\<close> is \<open>None\<close>, and
  \<open>.get("name", "Unknown")\<close> on it raises \<open>AttributeError\<close> before anything is written.
\<close>

lemma rebuild_null_creator:
  "rebuild_book_cache stamp book_id book_null_creator chapters c = Inl AttributeError"
  by (simp add: rebuild_book_cache_def book_fields_def book_null_creator_def name_of_def
      dget_default_def and_then_def u_def)

text \<open>
  Claim C9 (in the manual fallback the current chapters are presented and the cache entry
  of the book is rebuilt and persisted before the command ends). The cache lists the
  chapter \<open>Intro\<close> under the identifier \<open>X\<close> in the entry of book \<open>B\<close>; the service no
  longer knows \<open>X\<close>, answers the request for \<open>B\<close> with
  \<open>{"title": "Tales", "creator": null}\<close> and the request for its chapters with the one
  chapter \<open>Prologue\<close>. The command finds the entry, deletes it, finds no chapter titled
  \<open>Intro\<close> and prints the current chapters; then \<open>_rebuild_book_cache\<close> raises
  \<open>AttributeError\<close> on \<open>creator\<close>, nothing catches it, and the cache is left without an
  entry for \<open>B\<close>.
\<close>

theorem fallback_rebuild_raises_on_null_creator:
  "cmd_chapter_read lower (u ''2024-01-08T00:00:00Z'')
     (remote_example book_null_creator (JList [chapter_titled (u ''Prologue'') (u ''Z'')]))
     cache_example (u ''X'')
   = (Raised AttributeError, [],
      [u ''  Chapter ID not found, checking for stale cache...'',
       u ''  Found stale ID in cached book: B'',
       u ''  Auto-refreshing book cache...'',
       FALLBACK_HEAD,
       u ''    1. Prologue (id: Z)'',
       [],
       FALLBACK_ACTION])"
proof -
  let ?chs = "JList [chapter_titled (u ''Prologue'') (u ''Z'')]"
  let ?rem = "remote_example book_null_creator ?chs"
  let ?run = "cmd_chapter_read lower (u ''2024-01-08T00:00:00Z'') ?rem cache_example (u ''X'')"
  have nf: "\<not> truthy (quiet (?rem (chapter_path (u ''X''))))"
    by (simp add: remote_example_simps)
  have bk: "truthy (quiet (?rem (book_path (u ''B''))))"
    by (simp add: remote_example_simps book_null_creator_def)
  have bkq: "quiet (?rem (book_path (u ''B''))) = book_null_creator"
    by (simp add: remote_example_simps)
  have chs: "fresh_chapters ?rem (u ''B'') = ?chs"
    by (simp add: remote_example_simps chapters_of_def)
  have tr: "truthy (fresh_chapters ?rem (u ''B''))"
    by (simp add: chs)
  have m: "match_chapter lower (Some (u ''Intro'')) ?chs = Inr None"
    by (simp add: match_chapter_def iterate_def and_then_def chapter_titled_simps
        title_keys_example Intro_not_empty)
  have fb: "manual_fallback (u ''2024-01-08T00:00:00Z'') [] (u ''B'') book_null_creator ?chs out
      = (Raised AttributeError, [],
         out @ [FALLBACK_HEAD, u ''    '' @ str_nat 1 @ u ''. '' @ u ''Prologue'' @ u '' (id: ''
                  @ u ''Z'' @ u '')'', [], FALLBACK_ACTION])" for out
    by (simp add: manual_fallback_def iterate_def chapter_titled_simps rebuild_null_creator)
  have r: "refresh_and_match lower (u ''2024-01-08T00:00:00Z'') ?rem cache_example (u ''X'')
      (u ''B'') (Some (u ''Intro''))
      = (Raised AttributeError, [],
         [u ''  Found stale ID in cached book: '' @ u ''B'',
          u ''  Auto-refreshing book cache...'',
          FALLBACK_HEAD, u ''    '' @ str_nat 1 @ u ''. '' @ u ''Prologue'' @ u '' (id: ''
                  @ u ''Z'' @ u '')'', [], FALLBACK_ACTION])"
    unfolding refresh_and_match_searches [where rem = ?rem, OF bk tr] chs bkq m
      unlink_cache_example
    by (simp add: fb)
  note s = cmd_chapter_read_stale
    [where rem = ?rem and chapter_id = "u ''X''" and str_lower = lower
       and stamp = "u ''2024-01-08T00:00:00Z''",
     OF nf find_stale_example B_not_empty]
  have "fst ?run = Raised AttributeError"
    by (simp add: s(1) title_hint_example r)
  moreover have "fst (snd ?run) = []"
    by (simp add: s(2) title_hint_example r)
  moreover have "snd (snd ?run) =
      [u ''  Chapter ID not found, checking for stale cache...'',
       u ''  Found stale ID in cached book: '' @ u ''B'',
       u ''  Auto-refreshing book cache...'',
       FALLBACK_HEAD, u ''    '' @ str_nat 1 @ u ''. '' @ u ''Prologue'' @ u '' (id: ''
                  @ u ''Z'' @ u '')'', [], FALLBACK_ACTION]"
    by (simp add: s(3) title_hint_example r)
  then have "snd (snd ?run) =
      [u ''  Chapter ID not found, checking for stale cache...'',
       u ''  Found stale ID in cached book: B'',
       u ''  Auto-refreshing book cache...'',
       FALLBACK_HEAD,
       u ''    1. Prologue (id: Z)'',
       [],
       FALLBACK_ACTION]"
    by (simp add: str_nat_small u_def)
  ultimately show ?thesis
    by (metis prod.collapse)
qed








end
